theory Spec2Isabelle
  imports Complex_Main "HOL-Library.Word"
begin

section \<open>Data model (database.go)\<close>

text \<open>
  A Go string is modelled as the sequence of runes (Unicode code points) that \<open>range\<close>
  yields over it and that \<open>WriteRune\<close> appends to a buffer; for valid UTF-8 this sequence
  determines the bytes. The regular expressions, \<open>strings.TrimSpace\<close> and the normalizers
  of the source all work rune by rune. \<open>str\<close> reads an ASCII literal as such a sequence.

  \<open>time.Time\<close> is an opaque instant, modelled as an integer. A Go \<open>int\<close> is a 64-bit
  signed integer, modelled as \<open>int\<close>; the only place where its range matters is
  \<open>strconv.Atoi\<close>, where the range check is written out.
\<close>

type_synonym rune = nat
type_synonym gostring = "rune list"
type_synonym Time = int

subsection \<open>Money\<close>

text \<open>
  \<open>Money\<close> is a float64. Its values are the finite ones, each of which is a real number,
  the two infinities, and NaN. (The two zeros of IEEE 754 are one value here: they compare
  equal, and the code neither divides by a price nor takes its sign.) The zero value of
  the type, which Go gives to a field that is not set, is \<open>0\<close>.
\<close>

datatype float64 = Finite real | PosInf | NegInf | NaN

type_synonym Money = float64

instantiation float64 :: zero
begin

definition zero_float64 :: float64 where
  "zero_float64 = Finite 0"

instance ..

end

text \<open>
  The comparisons \<open><\<close> and \<open><=\<close> of float64: every comparison with NaN is false, and the
  infinities lie below and above every finite value.
\<close>

fun flt :: "float64 \<Rightarrow> float64 \<Rightarrow> bool" where
  "flt NaN b = False"
| "flt a NaN = False"
| "flt (Finite x) (Finite y) = (x < y)"
| "flt a NegInf = False"
| "flt NegInf b = True"
| "flt PosInf b = False"
| "flt a PosInf = True"

definition fle :: "float64 \<Rightarrow> float64 \<Rightarrow> bool" where
  "fle a b \<longleftrightarrow> a \<noteq> NaN \<and> b \<noteq> NaN \<and> (a = b \<or> flt a b)"

text \<open>
  The sum and the product of two float64 and the conversion of an \<open>int\<close> to float64 round
  their exact result as IEEE 754 prescribes. They are operations of the language and not
  of the repository, and the model takes them as a parameter: what is proved holds
  whatever they compute.
\<close>

record Float64Ops =
  fadd :: "float64 \<Rightarrow> float64 \<Rightarrow> float64"
  fmul :: "float64 \<Rightarrow> float64 \<Rightarrow> float64"
  fromInt :: "int \<Rightarrow> float64"

definition str :: "string \<Rightarrow> gostring" where
  "str s = map of_char s"

record CardEntry =
  Name :: gostring
  Count :: int
  PricePer :: Money
  NotFound :: bool

record CommanderEntry =
  CommanderName :: gostring
  CommanderPrice :: Money
  IsPresent :: bool
  CommanderNotFound :: bool

record Snapshot =
  Date :: Time
  Decklist :: "CardEntry list"
  Sideboard :: "CardEntry list"
  Commander :: CommanderEntry
  IsGrandfatherLegal :: bool

record Deck =
  DeckName :: gostring
  CreationDate :: Time
  PriceLimit :: Money
  StagingArea :: Snapshot
  Snapshots :: "Snapshot list"

definition Free :: Money where
  "Free = 0"

text \<open>
  A Go \<open>error\<close> value is modelled by its message. A run of the code that does not return
  ends in a panic: a nil pointer dereference, or \<open>panic(err)\<close> with an error.
\<close>

datatype error = Error gostring

datatype panic = NilPointerDereference | Panic error

section \<open>Prices of entries and snapshots\<close>

text \<open>\<open>c.PricePer * Money(c.Count)\<close>\<close>

definition CardEntry_TotalPrice :: "Float64Ops \<Rightarrow> CardEntry \<Rightarrow> Money" where
  "CardEntry_TotalPrice F c = fmul F (PricePer c) (fromInt F (Count c))"

text \<open>The loop \<open>for _, c := range cards { ret += c.TotalPrice() }\<close>, started at \<open>ret\<close>.\<close>

fun addPrices :: "Float64Ops \<Rightarrow> Money \<Rightarrow> CardEntry list \<Rightarrow> Money" where
  "addPrices F ret [] = ret"
| "addPrices F ret (c # cs) = addPrices F (fadd F ret (CardEntry_TotalPrice F c)) cs"

definition TotalPrice :: "Float64Ops \<Rightarrow> Snapshot \<Rightarrow> Money" where
  "TotalPrice F s =
     (let ret = Free;
          ret = addPrices F ret (Decklist s);
          ret = addPrices F ret (Sideboard s);
          ret = (if IsPresent (Commander s) then fadd F ret (CommanderPrice (Commander s))
                 else ret)
      in ret)"

section \<open>Legality\<close>

text \<open>The loop \<open>for _, c := range cards { if c.NotFound { return false } }\<close>: does it return?\<close>

fun anyNotFound :: "CardEntry list \<Rightarrow> bool" where
  "anyNotFound [] = False"
| "anyNotFound (c # cs) = (if NotFound c then True else anyNotFound cs)"

text \<open>
  \<open>IsSnapshotLegal\<close> takes a pointer to a snapshot, \<open>None\<close> being nil. Its first
  statement reads \<open>s.Commander\<close>, which panics on a nil pointer before the
  \<open>s != nil\<close> test of the last line is reached.
\<close>

definition IsSnapshotLegal :: "Float64Ops \<Rightarrow> Deck \<Rightarrow> Snapshot option \<Rightarrow> panic + bool" where
  "IsSnapshotLegal F d sp =
     (case sp of
        None \<Rightarrow> Inl NilPointerDereference
      | Some s \<Rightarrow>
          if IsPresent (Commander s) \<and> CommanderNotFound (Commander s) then Inr False
          else if anyNotFound (Decklist s) then Inr False
          else if anyNotFound (Sideboard s) then Inr False
          else Inr (sp \<noteq> None \<and>
                    (IsGrandfatherLegal s \<or> fle (TotalPrice F s) (PriceLimit d))))"

definition IsStagingAreaLegal :: "Float64Ops \<Rightarrow> Deck \<Rightarrow> panic + bool" where
  "IsStagingAreaLegal F d = IsSnapshotLegal F d (Some (StagingArea d))"

section \<open>Identical cards\<close>

text \<open>\<open>fmt.Sprintf("%d", n)\<close>: the decimal digits of \<open>n\<close>, after a minus sign when negative.\<close>

function natDigits :: "nat \<Rightarrow> gostring" where
  "natDigits n = (if n < 10 then [48 + n] else natDigits (n div 10) @ [48 + n mod 10])"
  by pat_completeness auto
termination
  by (relation "measure id") auto

definition formatInt :: "int \<Rightarrow> gostring" where
  "formatInt i = (if i < 0 then 45 # natDigits (nat (- i)) else natDigits (nat i))"

text \<open>\<open>fmt.Sprintf("%d %s\\n", c.Count, c.Name)\<close>; 32 is the space and 10 the line feed.\<close>

definition entryLine :: "CardEntry \<Rightarrow> gostring" where
  "entryLine c = formatInt (Count c) @ [32] @ Name c @ [10]"

text \<open>The loop of \<open>DecklistDump\<close> and \<open>SideboardDump\<close>, writing to \<open>buffer\<close>.\<close>

fun dumpCards :: "gostring \<Rightarrow> CardEntry list \<Rightarrow> gostring" where
  "dumpCards buffer [] = buffer"
| "dumpCards buffer (c # cs) = dumpCards (buffer @ entryLine c) cs"

definition DecklistDump :: "Snapshot \<Rightarrow> gostring" where
  "DecklistDump s = dumpCards [] (Decklist s)"

definition SideboardDump :: "Snapshot \<Rightarrow> gostring" where
  "SideboardDump s = dumpCards [] (Sideboard s)"

definition HasIdenticalCards :: "Snapshot \<Rightarrow> Snapshot \<Rightarrow> bool" where
  "HasIdenticalCards s other \<longleftrightarrow>
     DecklistDump s = DecklistDump other \<and>
     SideboardDump s = SideboardDump other \<and>
     IsPresent (Commander s) = IsPresent (Commander other) \<and>
     CommanderName (Commander s) = CommanderName (Commander other)"

section \<open>The current price snapshot\<close>

text \<open>
  \<open>CurrentPriceSnapshot\<close> returns a pointer to one of the deck's snapshots; the model
  keeps the index of that snapshot in \<open>d.Snapshots\<close>, so that two snapshots with equal
  contents are still told apart. \<open>scanOlder F snaps lastIdx bestIdx n\<close> is the loop
  \<open>for i := n - 1; i >= 0; i--\<close> with \<open>lastSnap = snaps[lastIdx]\<close> and
  \<open>bestSnap = snaps[bestIdx]\<close>; every index it reads is below \<open>len(snaps)\<close>. The elements
  of \<open>d.Snapshots\<close> are results of \<open>Clone\<close> and never nil.
\<close>

fun scanOlder :: "Float64Ops \<Rightarrow> Snapshot list \<Rightarrow> nat \<Rightarrow> nat \<Rightarrow> nat \<Rightarrow> nat" where
  "scanOlder F snaps lastIdx bestIdx 0 = bestIdx"
| "scanOlder F snaps lastIdx bestIdx (Suc i) =
     (if \<not> HasIdenticalCards (snaps ! i) (snaps ! lastIdx) then bestIdx
      else if flt (TotalPrice F (snaps ! i)) (TotalPrice F (snaps ! bestIdx))
        then scanOlder F snaps lastIdx i i
        else scanOlder F snaps lastIdx bestIdx i)"

definition CurrentPriceSnapshotIndex :: "Float64Ops \<Rightarrow> Deck \<Rightarrow> nat option" where
  "CurrentPriceSnapshotIndex F d =
     (if length (Snapshots d) = 0 then None
      else let lastIdx = length (Snapshots d) - 1
           in Some (scanOlder F (Snapshots d) lastIdx lastIdx (length (Snapshots d) - 1)))"

definition CurrentPriceSnapshot :: "Float64Ops \<Rightarrow> Deck \<Rightarrow> Snapshot option" where
  "CurrentPriceSnapshot F d =
     map_option (\<lambda>i. Snapshots d ! i) (CurrentPriceSnapshotIndex F d)"

definition Deck_IsGrandfatherLegal :: "Float64Ops \<Rightarrow> Deck \<Rightarrow> bool" where
  "Deck_IsGrandfatherLegal F d =
     (case CurrentPriceSnapshot F d of None \<Rightarrow> False | Some s \<Rightarrow> IsGrandfatherLegal s)"

definition IsLegal :: "Float64Ops \<Rightarrow> Deck \<Rightarrow> panic + bool" where
  "IsLegal F d = IsSnapshotLegal F d (CurrentPriceSnapshot F d)"

section \<open>Decklist parser\<close>

text \<open>
  \<open>ParseCardEntryLine\<close> matches the line against the regular expression
  \<^verbatim>\<open>(?:([0-9]+)[xX]?\s+)?(\w.+)\<close>. In Go's syntax the classes are ASCII:
  \<^verbatim>\<open>\w\<close> is \<^verbatim>\<open>[0-9A-Za-z_]\<close>, \<^verbatim>\<open>\s\<close> is \<^verbatim>\<open>[\t\n\f\r ]\<close>, and \<^verbatim>\<open>.\<close> is any rune but
  the line feed.
\<close>

definition isDigit :: "rune \<Rightarrow> bool" where
  "isDigit r \<longleftrightarrow> 48 \<le> r \<and> r \<le> 57"

definition isWordChar :: "rune \<Rightarrow> bool" where
  "isWordChar r \<longleftrightarrow> isDigit r \<or> (65 \<le> r \<and> r \<le> 90) \<or> r = 95 \<or> (97 \<le> r \<and> r \<le> 122)"

definition isSpaceClass :: "rune \<Rightarrow> bool" where
  "isSpaceClass r \<longleftrightarrow> r = 9 \<or> r = 10 \<or> r = 12 \<or> r = 13 \<or> r = 32"

definition isX :: "rune \<Rightarrow> bool" where
  "isX r \<longleftrightarrow> r = 120 \<or> r = 88"

definition notNewline :: "rune \<Rightarrow> bool" where
  "notNewline r \<longleftrightarrow> r \<noteq> 10"

text \<open>
  Go's matcher returns the leftmost match and, among the matches that start there, the one
  a backtracking matcher finds first. The functions below are that backtracking matcher,
  one per suffix of the pattern; each takes the input that is left and returns what the
  rest of the pattern captures together with the input after the match.

  \<open>matchName\<close> is \<^verbatim>\<open>(\w.+)\<close>: nothing follows the greedy \<^verbatim>\<open>.+\<close>, so its first choice, the
  longest run, is the one taken. It returns group 2 and the remaining input.
\<close>

definition matchName :: "gostring \<Rightarrow> (gostring \<times> gostring) option" where
  "matchName s =
     (case s of
        [] \<Rightarrow> None
      | c # r \<Rightarrow>
          if isWordChar c \<and> takeWhile notNewline r \<noteq> []
          then Some (c # takeWhile notNewline r, dropWhile notNewline r)
          else None)"

text \<open>\<^verbatim>\<open>\s*(\w.+)\<close>: take one more space first, and only if that fails go on without it.\<close>

fun matchSpacesStar :: "gostring \<Rightarrow> (gostring \<times> gostring) option" where
  "matchSpacesStar [] = matchName []"
| "matchSpacesStar (c # r) =
     (if isSpaceClass c
      then (case matchSpacesStar r of Some m \<Rightarrow> Some m | None \<Rightarrow> matchName (c # r))
      else matchName (c # r))"

text \<open>\<^verbatim>\<open>\s+(\w.+)\<close>\<close>

definition matchSpacesPlus :: "gostring \<Rightarrow> (gostring \<times> gostring) option" where
  "matchSpacesPlus s =
     (case s of [] \<Rightarrow> None | c # r \<Rightarrow> if isSpaceClass c then matchSpacesStar r else None)"

text \<open>\<^verbatim>\<open>[xX]?\s+(\w.+)\<close>: with the letter first, without it second.\<close>

definition matchOptX :: "gostring \<Rightarrow> (gostring \<times> gostring) option" where
  "matchOptX s =
     (case s of
        [] \<Rightarrow> matchSpacesPlus []
      | c # r \<Rightarrow>
          if isX c
          then (case matchSpacesPlus r of Some m \<Rightarrow> Some m | None \<Rightarrow> matchSpacesPlus (c # r))
          else matchSpacesPlus (c # r))"

text \<open>
  \<^verbatim>\<open>[0-9]*[xX]?\s+(\w.+)\<close> after the digits \<open>g1\<close> have been taken for group 1: one more
  digit first. It returns group 1, group 2 and the remaining input.
\<close>

fun matchDigitsStar :: "gostring \<Rightarrow> gostring \<Rightarrow> (gostring \<times> gostring \<times> gostring) option" where
  "matchDigitsStar g1 [] = map_option (\<lambda>(g2, rest). (g1, g2, rest)) (matchOptX [])"
| "matchDigitsStar g1 (c # r) =
     (if isDigit c
      then (case matchDigitsStar (g1 @ [c]) r of
              Some m \<Rightarrow> Some m
            | None \<Rightarrow> map_option (\<lambda>(g2, rest). (g1, g2, rest)) (matchOptX (c # r)))
      else map_option (\<lambda>(g2, rest). (g1, g2, rest)) (matchOptX (c # r)))"

text \<open>\<^verbatim>\<open>([0-9]+)[xX]?\s+(\w.+)\<close>\<close>

definition matchCount :: "gostring \<Rightarrow> (gostring \<times> gostring \<times> gostring) option" where
  "matchCount s =
     (case s of [] \<Rightarrow> None | c # r \<Rightarrow> if isDigit c then matchDigitsStar [c] r else None)"

text \<open>
  The whole pattern at the start of \<open>s\<close>: the optional group is tried first; when it is
  skipped, group 1 takes no part in the match and its submatch is the empty string.
\<close>

definition matchHere :: "gostring \<Rightarrow> (gostring \<times> gostring \<times> gostring) option" where
  "matchHere s =
     (case matchCount s of
        Some m \<Rightarrow> Some m
      | None \<Rightarrow> map_option (\<lambda>(g2, rest). ([], g2, rest)) (matchName s))"

text \<open>The leftmost match: the first start position at which the pattern matches.\<close>

fun findMatch :: "gostring \<Rightarrow> (gostring \<times> gostring \<times> gostring) option" where
  "findMatch [] = matchHere []"
| "findMatch (c # r) = (case matchHere (c # r) of Some m \<Rightarrow> Some m | None \<Rightarrow> findMatch r)"

text \<open>Every match takes at least two runes, so the input after a match is shorter.\<close>

lemma matchName_shorter: "matchName s = Some (g2, rest) \<Longrightarrow> length rest < length s"
  by (auto simp: matchName_def less_Suc_eq_le length_dropWhile_le split: list.splits if_splits)

lemma matchSpacesStar_shorter: "matchSpacesStar s = Some (g2, rest) \<Longrightarrow> length rest < length s"
proof (induction s)
  case Nil
  then show ?case by (simp add: matchName_def)
next
  case (Cons c r)
  then show ?case
    by (auto split: if_splits option.splits dest: matchName_shorter)
qed

lemma matchSpacesPlus_shorter: "matchSpacesPlus s = Some (g2, rest) \<Longrightarrow> length rest < length s"
  by (auto simp: matchSpacesPlus_def split: list.splits if_splits dest: matchSpacesStar_shorter)

lemma matchOptX_shorter: "matchOptX s = Some (g2, rest) \<Longrightarrow> length rest < length s"
  by (auto simp: matchOptX_def split: list.splits if_splits option.splits
           dest: matchSpacesPlus_shorter)

lemma matchDigitsStar_shorter:
  "matchDigitsStar g s = Some (g1, g2, rest) \<Longrightarrow> length rest < length s"
proof (induction s arbitrary: g)
  case Nil
  then show ?case by (auto dest: matchOptX_shorter)
next
  case (Cons c r)
  show ?case
  proof (cases "isDigit c \<and> matchDigitsStar (g @ [c]) r \<noteq> None")
    case True
    with Cons.prems have "matchDigitsStar (g @ [c]) r = Some (g1, g2, rest)"
      by (auto split: option.splits)
    from Cons.IH[OF this] show ?thesis by simp
  next
    case False
    with Cons.prems have "matchOptX (c # r) = Some (g2, rest)"
      by (auto split: if_splits option.splits)
    then show ?thesis by (rule matchOptX_shorter)
  qed
qed

lemma matchHere_shorter: "matchHere s = Some (g1, g2, rest) \<Longrightarrow> length rest < length s"
  by (auto simp: matchHere_def matchCount_def split: list.splits if_splits option.splits
           dest: matchDigitsStar_shorter matchName_shorter)

lemma findMatch_shorter: "findMatch s = Some (g1, g2, rest) \<Longrightarrow> length rest < length s"
proof (induction s)
  case Nil
  then show ?case by (auto dest: matchHere_shorter)
next
  case (Cons c r)
  then show ?case
    by (auto split: option.splits dest: matchHere_shorter)
qed

text \<open>
  \<open>FindAllStringSubmatch(s, -1)\<close>: the successive matches, each search starting where
  the match before ended. Of a match the model keeps groups 1 and 2; the source's
  \<open>matches[0]\<close> also holds the whole match at index 0 and always has length 3.
\<close>

function FindAllStringSubmatch :: "gostring \<Rightarrow> (gostring \<times> gostring) list" where
  "FindAllStringSubmatch s =
     (case findMatch s of
        None \<Rightarrow> []
      | Some (g1, g2, rest) \<Rightarrow> (g1, g2) # FindAllStringSubmatch rest)"
  by pat_completeness auto
termination
  by (relation "measure length") (auto dest: findMatch_shorter)

text \<open>
  \<open>strconv.Atoi\<close>: an optional sign, then one or more decimal digits; a value outside
  the 64-bit signed range is a range error.
\<close>

datatype NumError = ErrSyntax | ErrRange

fun digitsValue :: "int \<Rightarrow> gostring \<Rightarrow> int" where
  "digitsValue n [] = n"
| "digitsValue n (c # cs) = digitsValue (n * 10 + (int c - 48)) cs"

definition Atoi :: "gostring \<Rightarrow> NumError + int" where
  "Atoi s =
     (let (neg, ds) = (case s of
                          [] \<Rightarrow> (False, [])
                        | c # r \<Rightarrow> if c = 45 then (True, r) else if c = 43 then (False, r)
                                   else (False, s))
      in if ds = [] \<or> \<not> list_all isDigit ds then Inl ErrSyntax
         else let v = (if neg then - digitsValue 0 ds else digitsValue 0 ds)
              in if v < - (2 ^ 63) \<or> 2 ^ 63 - 1 < v then Inl ErrRange else Inr v)"

text \<open>\<open>unicode.IsSpace\<close>: the runes with the Unicode property White_Space.\<close>

definition IsSpace :: "rune \<Rightarrow> bool" where
  "IsSpace r \<longleftrightarrow>
     (9 \<le> r \<and> r \<le> 13) \<or> r = 32 \<or> r = 0x85 \<or> r = 0xA0 \<or> r = 0x1680 \<or>
     (0x2000 \<le> r \<and> r \<le> 0x200A) \<or> r = 0x2028 \<or> r = 0x2029 \<or> r = 0x202F \<or>
     r = 0x205F \<or> r = 0x3000"

definition TrimSpace :: "gostring \<Rightarrow> gostring" where
  "TrimSpace s = rev (dropWhile IsSpace (rev (dropWhile IsSpace s)))"

text \<open>
  The pattern compiles, so the first \<open>return nil\<close> of \<open>ParseCardEntryLine\<close> is never
  taken. The new entry has the zero values for \<open>PricePer\<close> and \<open>NotFound\<close>.
\<close>

definition ParseCardEntryLine :: "gostring \<Rightarrow> CardEntry option" where
  "ParseCardEntryLine s =
     (let matches = FindAllStringSubmatch s
      in if length matches \<noteq> 1 then None
         else case matches of
                [] \<Rightarrow> None
              | (g1, g2) # _ \<Rightarrow>
                  let count = (case Atoi g1 of Inl err \<Rightarrow> 1 | Inr n \<Rightarrow> n)
                  in Some \<lparr>Name = TrimSpace g2, Count = count, PricePer = 0, NotFound = False\<rparr>)"

text \<open>\<open>strings.Split(s, "\r\n")\<close>, with \<open>cur\<close> the piece read so far.\<close>

fun splitCRLF :: "gostring \<Rightarrow> gostring \<Rightarrow> gostring list" where
  "splitCRLF cur [] = [cur]"
| "splitCRLF cur [c] = [cur @ [c]]"
| "splitCRLF cur (a # b # r) =
     (if a = 13 \<and> b = 10 then cur # splitCRLF [] r else splitCRLF (cur @ [a]) (b # r))"

fun parseLinesLoop :: "CardEntry list \<Rightarrow> gostring list \<Rightarrow> CardEntry list" where
  "parseLinesLoop entries [] = entries"
| "parseLinesLoop entries (l # ls) =
     (case ParseCardEntryLine l of
        None \<Rightarrow> parseLinesLoop entries ls
      | Some entry \<Rightarrow> parseLinesLoop (entries @ [entry]) ls)"

definition ParseCardEntryLines :: "gostring \<Rightarrow> CardEntry list" where
  "ParseCardEntryLines s = parseLinesLoop [] (splitCRLF [] s)"

text \<open>The text whose lines, separated by carriage return and line feed, are \<open>ls\<close>.\<close>

fun joinCRLF :: "gostring list \<Rightarrow> gostring" where
  "joinCRLF [] = []"
| "joinCRLF [l] = l"
| "joinCRLF (l # l' # ls) = l @ 13 # 10 # joinCRLF (l' # ls)"

section \<open>Normalizers\<close>

text \<open>
  The classification of runes comes from Go's \<open>unicode\<close> package, which is not part of
  the repository: its tables are a parameter of the model. \<open>asciiTables\<close> is what the
  package computes on ASCII, with every other rune left unclassified and unchanged.
\<close>

record UnicodeTables =
  IsLower :: "rune \<Rightarrow> bool"
  IsUpper :: "rune \<Rightarrow> bool"
  IsNumber :: "rune \<Rightarrow> bool"
  IsLetter :: "rune \<Rightarrow> bool"
  ToLower :: "rune \<Rightarrow> rune"

definition asciiTables :: UnicodeTables where
  "asciiTables =
     \<lparr>IsLower = (\<lambda>r. 97 \<le> r \<and> r \<le> 122),
      IsUpper = (\<lambda>r. 65 \<le> r \<and> r \<le> 90),
      IsNumber = (\<lambda>r. 48 \<le> r \<and> r \<le> 57),
      IsLetter = (\<lambda>r. (65 \<le> r \<and> r \<le> 90) \<or> (97 \<le> r \<and> r \<le> 122)),
      ToLower = (\<lambda>r. if 65 \<le> r \<and> r \<le> 90 then r + 32 else r)\<rparr>"

text \<open>
  What the theorems on the normalizers use of the package's tables: on ASCII they are
  \<open>asciiTables\<close>; lowering an upper-case rune gives a lower-case rune, a number, or an
  upper-case rune that lowering leaves alone; lowering a letter or number gives a letter
  or number; and lowering twice is lowering once.
\<close>

definition agreeOnASCII :: "UnicodeTables \<Rightarrow> bool" where
  "agreeOnASCII U \<longleftrightarrow>
     (\<forall>r < 128. IsLower U r = IsLower asciiTables r \<and> IsUpper U r = IsUpper asciiTables r \<and>
        IsNumber U r = IsNumber asciiTables r \<and> IsLetter U r = IsLetter asciiTables r \<and>
        ToLower U r = ToLower asciiTables r)"


text \<open>\<open>normalizeRune\<close> of database.go; 45 is the hyphen and 36 the dollar sign.\<close>

definition normalizeRune :: "UnicodeTables \<Rightarrow> rune \<Rightarrow> rune" where
  "normalizeRune U r =
     (if IsLower U r \<or> IsNumber U r then r
      else if IsUpper U r then ToLower U r
      else 45)"

fun normalizeLoop :: "UnicodeTables \<Rightarrow> gostring \<Rightarrow> gostring \<Rightarrow> gostring" where
  "normalizeLoop U buffer [] = buffer"
| "normalizeLoop U buffer (c # cs) =
     (if c = 36 then normalizeLoop U buffer cs
      else normalizeLoop U (buffer @ [normalizeRune U c]) cs)"

definition normalizeString :: "UnicodeTables \<Rightarrow> gostring \<Rightarrow> gostring" where
  "normalizeString U s = normalizeLoop U [] s"

text \<open>\<open>nameToId\<close> of prices.go.\<close>

fun nameToIdLoop :: "UnicodeTables \<Rightarrow> gostring \<Rightarrow> gostring \<Rightarrow> gostring" where
  "nameToIdLoop U buffer [] = buffer"
| "nameToIdLoop U buffer (c # cs) =
     (if IsLetter U c \<or> IsNumber U c then nameToIdLoop U (buffer @ [ToLower U c]) cs
      else nameToIdLoop U buffer cs)"

definition nameToId :: "UnicodeTables \<Rightarrow> gostring \<Rightarrow> gostring" where
  "nameToId U name = nameToIdLoop U [] name"



section \<open>Price scraper (prices.go)\<close>

record PriceDbEntry =
  ID :: gostring
  EntryName :: gostring
  Price :: Money

record ScraperStats =
  LastPriceUpdate :: Time
  LastPriceUpdateError :: "error option"

text \<open>
  What the scraper reads of a page that goquery has fetched and parsed: of every \<open>a\<close>
  element its \<open>href\<close> attribute, and of every \<open>td\<close> element its \<open>bgcolor\<close> attribute, the
  \<open>href\<close> of the first \<open>a\<close> inside it, and its text. An attribute that does not exist is
  \<open>None\<close>.
\<close>

record Cell =
  Bgcolor :: "gostring option"
  Href :: "gostring option"
  CellText :: gostring

record Document =
  Anchors :: "gostring option list"
  Cells :: "Cell list"

text \<open>
  The surroundings of one scrape run: what \<open>goquery.NewDocument\<close> returns for a URL, what
  \<open>strconv.ParseFloat\<close> returns for a text, the \<open>unicode\<close> tables, and for each of the four
  store operations of the run the error that mgo returns, if any.
\<close>

record World =
  NewDocument :: "gostring \<Rightarrow> error + Document"
  ParseFloat :: "gostring \<Rightarrow> error + Money"
  Unicode :: UnicodeTables
  RemoveAllPricesErr :: "error option"
  InsertPricesErr :: "error option"
  RemoveAllStatsErr :: "error option"
  InsertStatsErr :: "error option"

text \<open>The two collections of the database that the scraper writes.\<close>

record Db =
  Prices :: "PriceDbEntry list"
  Stats :: "ScraperStats list"

definition SetScraperStats :: "World \<Rightarrow> Db \<Rightarrow> ScraperStats \<Rightarrow> Db \<times> error option" where
  "SetScraperStats W db s =
     (case RemoveAllStatsErr W of
        Some err \<Rightarrow> (db, Some err)
      | None \<Rightarrow>
          (case InsertStatsErr W of
             Some err \<Rightarrow> (db\<lparr>Stats := []\<rparr>, Some err)
           | None \<Rightarrow> (db\<lparr>Stats := [s]\<rparr>, None)))"

definition UpdateAllPrices :: "World \<Rightarrow> Db \<Rightarrow> PriceDbEntry list \<Rightarrow> Db \<times> error option" where
  "UpdateAllPrices W db prices =
     (case RemoveAllPricesErr W of
        Some err \<Rightarrow> (db, Some err)
      | None \<Rightarrow>
          (case InsertPricesErr W of
             Some err \<Rightarrow> (db\<lparr>Prices := []\<rparr>, Some err)
           | None \<Rightarrow> (db\<lparr>Prices := prices\<rparr>, None)))"

subsection \<open>String helpers of the \<open>strings\<close> package\<close>

definition HasPrefix :: "gostring \<Rightarrow> gostring \<Rightarrow> bool" where
  "HasPrefix s p \<longleftrightarrow> length p \<le> length s \<and> take (length p) s = p"

definition HasSuffix :: "gostring \<Rightarrow> gostring \<Rightarrow> bool" where
  "HasSuffix s p \<longleftrightarrow> length p \<le> length s \<and> drop (length s - length p) s = p"

text \<open>\<open>strings.Index\<close>: the first position at which \<open>sub\<close> starts, if any.\<close>

fun Index :: "gostring \<Rightarrow> gostring \<Rightarrow> nat option" where
  "Index [] sub = (if sub = [] then Some 0 else None)"
| "Index (c # r) sub =
     (if HasPrefix (c # r) sub then Some 0 else map_option Suc (Index r sub))"

text \<open>\<open>strings.Trim(s, "$")\<close> and the two uses of \<open>strings.Replace(s, old, new, -1)\<close>.\<close>

definition TrimDollar :: "gostring \<Rightarrow> gostring" where
  "TrimDollar s = rev (dropWhile (\<lambda>r. r = 36) (rev (dropWhile (\<lambda>r. r = 36) s)))"

definition removeCommas :: "gostring \<Rightarrow> gostring" where
  "removeCommas s = filter (\<lambda>r. r \<noteq> 44) s"

definition spacesToPlus :: "gostring \<Rightarrow> gostring" where
  "spacesToPlus s = map (\<lambda>r. if r = 32 then 43 else r) s"

subsection \<open>One listing page\<close>

text \<open>
  The callback that \<open>scrapePage\<close> runs on each \<open>td\<close>: \<open>Inr None\<close> when it returns without
  an entry, \<open>Inr (Some e)\<close> when it appends \<open>e\<close>, \<open>Inl\<close> when it panics.
\<close>

definition scrapeCell :: "World \<Rightarrow> Cell \<Rightarrow> panic + PriceDbEntry option" where
  "scrapeCell W cell =
     (case Bgcolor cell of
        None \<Rightarrow> Inr None
      | Some val \<Rightarrow>
          if \<not> (val = str ''#D1DFFC'' \<or> val = str ''#E6F4FF'') then Inr None
          else (case Href cell of
            None \<Rightarrow> Inr None
          | Some val \<Rightarrow>
              (case Index val (str ''cn='') of
                 None \<Rightarrow> Inr None
               | Some idx \<Rightarrow>
                   (let val = drop (idx + 3) val
                    in (case Index val (str ''&'') of
                          None \<Rightarrow> Inr None
                        | Some idx \<Rightarrow>
                            (let cardName = take idx val;
                                 price = removeCommas (TrimDollar (TrimSpace (CellText cell)))
                             in (case ParseFloat W price of
                                   Inl err \<Rightarrow> Inl (Panic err)
                                 | Inr priceFloat \<Rightarrow>
                                     Inr (Some \<lparr>ID = nameToId (Unicode W) cardName,
                                                EntryName = cardName,
                                                Price = priceFloat\<rparr>))))))))"

fun scrapeCells :: "World \<Rightarrow> PriceDbEntry list \<Rightarrow> Cell list \<Rightarrow> panic + PriceDbEntry list" where
  "scrapeCells W entries [] = Inr entries"
| "scrapeCells W entries (cell # cells) =
     (case scrapeCell W cell of
        Inl p \<Rightarrow> Inl p
      | Inr None \<Rightarrow> scrapeCells W entries cells
      | Inr (Some e) \<Rightarrow> scrapeCells W (entries @ [e]) cells)"

definition scrapePage :: "World \<Rightarrow> gostring \<Rightarrow> panic + (error + PriceDbEntry list)" where
  "scrapePage W url =
     (case NewDocument W (spacesToPlus url) of
        Inl err \<Rightarrow> Inr (Inl err)
      | Inr doc \<Rightarrow>
          (case scrapeCells W [] (Cells doc) of
             Inl p \<Rightarrow> Inl p
           | Inr entries \<Rightarrow> Inr (Inr entries)))"

subsection \<open>The run\<close>

text \<open>
  The \<open>Each\<close> callback of \<open>scrapePrices\<close> on the anchors of the index page, building
  \<open>setLinks\<close>. \<open>strings.ToLower\<close> lowers every rune.
\<close>

fun collectSetLinks :: "World \<Rightarrow> gostring list \<Rightarrow> gostring option list \<Rightarrow> gostring list" where
  "collectSetLinks W setLinks [] = setLinks"
| "collectSetLinks W setLinks (a # as) =
     (case a of
        None \<Rightarrow> collectSetLinks W setLinks as
      | Some val \<Rightarrow>
          if HasPrefix (map (ToLower (Unicode W)) val) (str ''/db/search_result.asp?set_name='')
          then (let val = (if HasSuffix val (str ''Magic 2010'') then val @ str '' (M10)'' else val)
                in collectSetLinks W (setLinks @ [str ''http://magic.tcgplayer.com'' @ val]) as)
          else collectSetLinks W setLinks as)"

text \<open>
  The Go map \<open>lowestPrice\<close> is an association list with one pair per key: a lookup is
  \<open>map_of\<close>, and \<open>mapStore\<close> is the assignment \<open>m[k] = v\<close>. A Go map is iterated in an
  unspecified order; the model iterates in the order in which the keys were first stored.
\<close>

fun mapStore :: "('k \<times> 'v) list \<Rightarrow> 'k \<Rightarrow> 'v \<Rightarrow> ('k \<times> 'v) list" where
  "mapStore [] k v = [(k, v)]"
| "mapStore ((k', v') # m) k v = (if k' = k then (k, v) # m else (k', v') # mapStore m k v)"

text \<open>The inner loop of \<open>scrapePrices\<close> over the entries of one page.\<close>

fun reconcile ::
  "(gostring \<times> PriceDbEntry) list \<Rightarrow> PriceDbEntry list \<Rightarrow> (gostring \<times> PriceDbEntry) list" where
  "reconcile lowestPrice [] = lowestPrice"
| "reconcile lowestPrice (e # es) =
     (case map_of lowestPrice (ID e) of
        None \<Rightarrow> reconcile (mapStore lowestPrice (ID e) e) es
      | Some val \<Rightarrow>
          if flt (Price e) (Price val) then reconcile (mapStore lowestPrice (ID e) e) es
          else reconcile lowestPrice es)"


text \<open>The outer loop over \<open>setLinks\<close>: a panic, a returned error, or the final map.\<close>

fun scrapeLinks ::
  "World \<Rightarrow> (gostring \<times> PriceDbEntry) list \<Rightarrow> gostring list \<Rightarrow>
     panic + (error + (gostring \<times> PriceDbEntry) list)" where
  "scrapeLinks W lowestPrice [] = Inr (Inr lowestPrice)"
| "scrapeLinks W lowestPrice (link # links) =
     (case scrapePage W link of
        Inl p \<Rightarrow> Inl p
      | Inr (Inl err) \<Rightarrow> Inr (Inl err)
      | Inr (Inr entries) \<Rightarrow> scrapeLinks W (reconcile lowestPrice entries) links)"

definition indexURL :: gostring where
  "indexURL = str ''http://magic.tcgplayer.com/all_magic_sets.asp''"

text \<open>
  \<open>scrapePrices\<close> returns the database as it leaves it and how it ends: \<open>Inl\<close> a panic,
  \<open>Inr\<close> the error it returns, \<open>None\<close> being nil.
\<close>

definition scrapePrices :: "World \<Rightarrow> Db \<Rightarrow> Db \<times> (panic + error option)" where
  "scrapePrices W db =
     (case NewDocument W indexURL of
        Inl err \<Rightarrow> (db, Inr (Some err))
      | Inr doc \<Rightarrow>
          (let setLinks = collectSetLinks W [] (Anchors doc)
           in (case scrapeLinks W [] setLinks of
                 Inl p \<Rightarrow> (db, Inl p)
               | Inr (Inl err) \<Rightarrow> (db, Inr (Some err))
               | Inr (Inr lowestPrice) \<Rightarrow>
                   (let allEntries = map snd lowestPrice;
                        (db, err) = UpdateAllPrices W db allEntries
                    in (db, Inr err)))))"

text \<open>
  \<open>scrapePricesPeriodic\<close>, with \<open>now\<close> the value of \<open>time.Now()\<close> after the scrape. It has no
  \<open>recover\<close>, and neither has \<open>ScrapeForever\<close>, which calls it: a panic of the scrape leaves
  both. The error that \<open>SetScraperStats\<close> returns is dropped. The result is the database
  as the call leaves it and the panic it ends in, if any.
\<close>

definition scrapePricesPeriodic :: "World \<Rightarrow> Time \<Rightarrow> Db \<Rightarrow> Db \<times> panic option" where
  "scrapePricesPeriodic W now db =
     (case scrapePrices W db of
        (db, Inl p) \<Rightarrow> (db, Some p)
      | (db, Inr None) \<Rightarrow>
          (fst (SetScraperStats W db \<lparr>LastPriceUpdate = now, LastPriceUpdateError = None\<rparr>),
           None)
      | (db, Inr (Some err)) \<Rightarrow>
          (fst (SetScraperStats W db \<lparr>LastPriceUpdate = now, LastPriceUpdateError = Some err\<rparr>),
           None))"

subsection \<open>How a run can go\<close>

text \<open>
  The set links of a run, and the three ways the scraping can go, in the words of the
  specification: a fetch fails (of the index page, or of a listing page after pages that
  were scraped); a price text does not parse (on a page after pages that were scraped);
  or every page is scraped, and \<open>m\<close> is the reconciled map.
\<close>

definition setLinksOf :: "World \<Rightarrow> gostring list" where
  "setLinksOf W =
     (case NewDocument W indexURL of
        Inl err \<Rightarrow> []
      | Inr doc \<Rightarrow> collectSetLinks W [] (Anchors doc))"

definition pageOk :: "panic + (error + PriceDbEntry list) \<Rightarrow> bool" where
  "pageOk res = (case res of Inr (Inr entries) \<Rightarrow> True | _ \<Rightarrow> False)"

definition fetchFails :: "World \<Rightarrow> error \<Rightarrow> bool" where
  "fetchFails W err \<longleftrightarrow>
     NewDocument W indexURL = Inl err \<or>
     (\<exists>i < length (setLinksOf W).
        NewDocument W (spacesToPlus (setLinksOf W ! i)) = Inl err \<and>
        (\<forall>j < i. pageOk (scrapePage W (setLinksOf W ! j))))"

definition parseFails :: "World \<Rightarrow> panic \<Rightarrow> bool" where
  "parseFails W p \<longleftrightarrow>
     (\<exists>i < length (setLinksOf W).
        scrapePage W (setLinksOf W ! i) = Inl p \<and>
        (\<forall>j < i. pageOk (scrapePage W (setLinksOf W ! j))))"

definition allScraped :: "World \<Rightarrow> (gostring \<times> PriceDbEntry) list \<Rightarrow> bool" where
  "allScraped W m \<longleftrightarrow>
     (\<exists>doc. NewDocument W indexURL = Inr doc) \<and>
     (\<exists>pages. map (scrapePage W) (setLinksOf W) = map (\<lambda>entries. Inr (Inr entries)) pages \<and>
              m = reconcile [] (concat pages))"

section \<open>Snapshots in memory and \<open>Clone\<close>\<close>

text \<open>
  In the source a snapshot holds two slices of pointers to card entries, so two snapshots
  can share entries or a backing array. For \<open>Clone\<close> the memory is explicit: \<open>Cards\<close> are the
  allocated \<open>CardEntry\<close> objects and \<open>Arrays\<close> the allocated backing arrays, both addressed
  by position; a pointer is \<open>Some\<close> address or \<open>None\<close> for nil. A slice is modelled by a
  pointer to its backing array, all of which it spans; the nil slice has length 0.
\<close>

type_synonym ptr = "nat option"

record Heap =
  Cards :: "CardEntry list"
  Arrays :: "ptr list list"

record SnapshotRef =
  RefDate :: Time
  RefDecklist :: ptr
  RefSideboard :: ptr
  RefCommander :: CommanderEntry
  RefIsGrandfatherLegal :: bool

definition sliceOf :: "Heap \<Rightarrow> ptr \<Rightarrow> ptr list" where
  "sliceOf h sl =
     (case sl of
        None \<Rightarrow> []
      | Some a \<Rightarrow> if a < length (Arrays h) then Arrays h ! a else [])"

text \<open>Reading through a pointer: nil panics.\<close>

definition deref :: "Heap \<Rightarrow> ptr \<Rightarrow> panic + CardEntry" where
  "deref h p =
     (case p of
        None \<Rightarrow> Inl NilPointerDereference
      | Some a \<Rightarrow> if a < length (Cards h) then Inr (Cards h ! a) else Inl NilPointerDereference)"

text \<open>\<open>make([]*CardEntry, n, n)\<close>: a new backing array of \<open>n\<close> nil pointers, and its address.\<close>

definition makeSlice :: "Heap \<Rightarrow> nat \<Rightarrow> Heap \<times> nat" where
  "makeSlice h n = (h\<lparr>Arrays := Arrays h @ [replicate n None]\<rparr>, length (Arrays h))"

text \<open>
  The loop \<open>for i := 0; i < len(src); i++ { card := *src[i]; dst[i] = &card }\<close> from \<open>i\<close> on:
  the variable \<open>card\<close> is a new object holding \<open>copy\<close>, a copy of the entry, and \<open>dst[i]\<close>
  is set to point to it.
  The loop takes \<open>len(src) - i\<close> more rounds.
\<close>

lemma length_after_write:
  "length (sliceOf (h\<lparr>Cards := cs, Arrays := (Arrays h)[dst := (Arrays h ! dst)[i := p]]\<rparr>) src)
     = length (sliceOf h src)"
proof (cases src)
  case None
  then show ?thesis by (simp add: sliceOf_def)
next
  case (Some a)
  have "a < length (Arrays h) \<Longrightarrow>
        length ((Arrays h)[dst := (Arrays h ! dst)[i := p]] ! a) = length (Arrays h ! a)"
    by (cases "a = dst") simp_all
  with Some show ?thesis by (simp add: sliceOf_def)
qed

function cloneLoop :: "Heap \<Rightarrow> ptr \<Rightarrow> nat \<Rightarrow> nat \<Rightarrow> panic + Heap" where
  "cloneLoop h src dst i =
     (if i < length (sliceOf h src) then
        (case deref h (sliceOf h src ! i) of
           Inl p \<Rightarrow> Inl p
         | Inr copy \<Rightarrow>
             cloneLoop
               (h\<lparr>Cards := Cards h @ [copy],
                  Arrays := (Arrays h)[dst := (Arrays h ! dst)[i := Some (length (Cards h))]]\<rparr>)
               src dst (Suc i))
      else Inr h)"
  by pat_completeness auto
termination
  by (relation "measure (\<lambda>(h, src, dst, i). length (sliceOf h src) - i)")
     (auto simp: length_after_write)

text \<open>\<open>Clone\<close> returns a pointer to a new snapshot; the model returns the snapshot.\<close>

definition Clone :: "Heap \<Rightarrow> SnapshotRef \<Rightarrow> panic + (Heap \<times> SnapshotRef)" where
  "Clone h s =
     (let (h, decklist) = makeSlice h (length (sliceOf h (RefDecklist s)))
      in (case cloneLoop h (RefDecklist s) decklist 0 of
            Inl p \<Rightarrow> Inl p
          | Inr h \<Rightarrow>
              (let (h, sideboard) = makeSlice h (length (sliceOf h (RefSideboard s)))
               in (case cloneLoop h (RefSideboard s) sideboard 0 of
                     Inl p \<Rightarrow> Inl p
                   | Inr h \<Rightarrow>
                       Inr (h, \<lparr>RefDate = RefDate s,
                                RefDecklist = Some decklist,
                                RefSideboard = Some sideboard,
                                RefCommander = RefCommander s,
                                RefIsGrandfatherLegal = RefIsGrandfatherLegal s\<rparr>)))))"

text \<open>\<open>TotalPrice\<close> as the source runs it, reading every entry through its pointer.\<close>

fun addPricesRef :: "Float64Ops \<Rightarrow> Heap \<Rightarrow> Money \<Rightarrow> ptr list \<Rightarrow> panic + Money" where
  "addPricesRef F h ret [] = Inr ret"
| "addPricesRef F h ret (p # ps) =
     (case deref h p of
        Inl e \<Rightarrow> Inl e
      | Inr c \<Rightarrow> addPricesRef F h (fadd F ret (CardEntry_TotalPrice F c)) ps)"

definition TotalPriceRef :: "Float64Ops \<Rightarrow> Heap \<Rightarrow> SnapshotRef \<Rightarrow> panic + Money" where
  "TotalPriceRef F h s =
     (case addPricesRef F h Free (sliceOf h (RefDecklist s)) of
        Inl e \<Rightarrow> Inl e
      | Inr ret \<Rightarrow>
          (case addPricesRef F h ret (sliceOf h (RefSideboard s)) of
             Inl e \<Rightarrow> Inl e
           | Inr ret \<Rightarrow>
               Inr (if IsPresent (RefCommander s)
                    then fadd F ret (CommanderPrice (RefCommander s))
                    else ret)))"

text \<open>
  The contents of a snapshot in memory, as a value: the entries its slices point to. It
  is \<open>None\<close> when one of the pointers is nil.
\<close>

fun loadCards :: "Heap \<Rightarrow> ptr list \<Rightarrow> CardEntry list option" where
  "loadCards h [] = Some []"
| "loadCards h (p # ps) =
     (case deref h p of
        Inl e \<Rightarrow> None
      | Inr c \<Rightarrow> map_option ((#) c) (loadCards h ps))"

definition loadSnapshot :: "Heap \<Rightarrow> SnapshotRef \<Rightarrow> Snapshot option" where
  "loadSnapshot h s =
     (case loadCards h (sliceOf h (RefDecklist s)) of
        None \<Rightarrow> None
      | Some decklist \<Rightarrow>
          (case loadCards h (sliceOf h (RefSideboard s)) of
             None \<Rightarrow> None
           | Some sideboard \<Rightarrow>
               Some \<lparr>Date = RefDate s, Decklist = decklist, Sideboard = sideboard,
                     Commander = RefCommander s,
                     IsGrandfatherLegal = RefIsGrandfatherLegal s\<rparr>))"

text \<open>
  A snapshot of a running program points only to allocated memory, and the entries of its
  slices are never nil (the parser and \<open>Clone\<close> store pointers to new objects only).
\<close>

definition allocatedSlice :: "Heap \<Rightarrow> ptr \<Rightarrow> bool" where
  "allocatedSlice h sl \<longleftrightarrow>
     (case sl of None \<Rightarrow> True | Some a \<Rightarrow> a < length (Arrays h)) \<and>
     list_all (\<lambda>p. case p of None \<Rightarrow> False | Some a \<Rightarrow> a < length (Cards h)) (sliceOf h sl)"

definition wellFormed :: "Heap \<Rightarrow> SnapshotRef \<Rightarrow> bool" where
  "wellFormed h s \<longleftrightarrow> allocatedSlice h (RefDecklist s) \<and> allocatedSlice h (RefSideboard s)"

text \<open>
  The memory that a snapshot owns: its two backing arrays and the entries they point to.
  \<open>changedOnlyIn h s h'\<close> says that memory \<open>h'\<close> comes from \<open>h\<close> by any writes to what \<open>s\<close>
  owns in \<open>h\<close> and any allocations; everything else is as it was.
\<close>

definition ownsArray :: "SnapshotRef \<Rightarrow> nat \<Rightarrow> bool" where
  "ownsArray s a \<longleftrightarrow> RefDecklist s = Some a \<or> RefSideboard s = Some a"

definition ownsCard :: "Heap \<Rightarrow> SnapshotRef \<Rightarrow> nat \<Rightarrow> bool" where
  "ownsCard h s a \<longleftrightarrow>
     Some a \<in> set (sliceOf h (RefDecklist s)) \<or> Some a \<in> set (sliceOf h (RefSideboard s))"

definition changedOnlyIn :: "Heap \<Rightarrow> SnapshotRef \<Rightarrow> Heap \<Rightarrow> bool" where
  "changedOnlyIn h s h' \<longleftrightarrow>
     length (Cards h) \<le> length (Cards h') \<and>
     length (Arrays h) \<le> length (Arrays h') \<and>
     (\<forall>a < length (Cards h). \<not> ownsCard h s a \<longrightarrow> Cards h' ! a = Cards h ! a) \<and>
     (\<forall>a < length (Arrays h). \<not> ownsArray s a \<longrightarrow> Arrays h' ! a = Arrays h ! a)"

text \<open>Memory \<open>h'\<close> holds everything that is allocated in \<open>h\<close>, unchanged.\<close>

definition preserves :: "Heap \<Rightarrow> Heap \<Rightarrow> bool" where
  "preserves h h' \<longleftrightarrow>
     length (Cards h) \<le> length (Cards h') \<and>
     length (Arrays h) \<le> length (Arrays h') \<and>
     (\<forall>a < length (Cards h). Cards h' ! a = Cards h ! a) \<and>
     (\<forall>a < length (Arrays h). Arrays h' ! a = Arrays h ! a)"

text \<open>The copies of the entries of a slice, and the pointers to \<open>n\<close> objects from address \<open>c\<close> on.\<close>

definition copiesOf :: "Heap \<Rightarrow> ptr \<Rightarrow> CardEntry list" where
  "copiesOf h sl = map (\<lambda>p. Cards h ! the p) (sliceOf h sl)"

definition freshPtrs :: "nat \<Rightarrow> nat \<Rightarrow> ptr list" where
  "freshPtrs c n = map Some [c ..< c + n]"

text \<open>
  The memory after the first \<open>i\<close> rounds of the copy loop on slice \<open>src\<close>, started in
  memory \<open>h\<close> right after \<open>make\<close>: \<open>i\<close> new entries, and a new backing array whose first \<open>i\<close>
  elements point to them.
\<close>

definition cloneState :: "Heap \<Rightarrow> ptr \<Rightarrow> nat \<Rightarrow> Heap" where
  "cloneState h src i =
     h\<lparr>Cards := Cards h @ take i (copiesOf h src),
       Arrays := Arrays h @ [freshPtrs (length (Cards h)) i
                             @ replicate (length (sliceOf h src) - i) None]\<rparr>"

section \<open>Example arithmetic\<close>

text \<open>
  Arithmetic without rounding, with the infinities and NaN as IEEE 754 has them. The
  arithmetic of float64 agrees with it wherever the exact result is a float64, as it is
  for the small integers of the examples below.
\<close>

fun exactAdd :: "float64 \<Rightarrow> float64 \<Rightarrow> float64" where
  "exactAdd NaN b = NaN"
| "exactAdd a NaN = NaN"
| "exactAdd (Finite x) (Finite y) = Finite (x + y)"
| "exactAdd PosInf NegInf = NaN"
| "exactAdd NegInf PosInf = NaN"
| "exactAdd PosInf b = PosInf"
| "exactAdd a PosInf = PosInf"
| "exactAdd NegInf b = NegInf"
| "exactAdd a NegInf = NegInf"

definition infTimes :: "bool \<Rightarrow> real \<Rightarrow> float64" where
  "infTimes positive x =
     (if x = 0 then NaN else if (0 < x) = positive then PosInf else NegInf)"

fun exactMul :: "float64 \<Rightarrow> float64 \<Rightarrow> float64" where
  "exactMul NaN b = NaN"
| "exactMul a NaN = NaN"
| "exactMul (Finite x) (Finite y) = Finite (x * y)"
| "exactMul (Finite x) PosInf = infTimes True x"
| "exactMul (Finite x) NegInf = infTimes False x"
| "exactMul PosInf (Finite y) = infTimes True y"
| "exactMul NegInf (Finite y) = infTimes False y"
| "exactMul PosInf PosInf = PosInf"
| "exactMul PosInf NegInf = NegInf"
| "exactMul NegInf PosInf = NegInf"
| "exactMul NegInf NegInf = PosInf"

definition exactOps :: Float64Ops where
  "exactOps = \<lparr>fadd = exactAdd, fmul = exactMul, fromInt = (\<lambda>i. Finite (of_int i))\<rparr>"

section \<open>Example decks\<close>

text \<open>
  A snapshot with cards A that costs 12, and snapshots with cards B taken at time \<open>t\<close> when
  a Lightning Bolt cost \<open>p\<close>: two of them, so the snapshot costs \<open>2 * p\<close>.
\<close>

definition noCommander :: CommanderEntry where
  "noCommander =
     \<lparr>CommanderName = [], CommanderPrice = 0, IsPresent = False, CommanderNotFound = False\<rparr>"

definition snapA :: Snapshot where
  "snapA =
     \<lparr>Date = 1,
      Decklist = [\<lparr>Name = str ''Shock'', Count = 4, PricePer = Finite 3, NotFound = False\<rparr>],
      Sideboard = [], Commander = noCommander, IsGrandfatherLegal = False\<rparr>"


definition deckWith :: "Snapshot list \<Rightarrow> Deck" where
  "deckWith snaps =
     \<lparr>DeckName = str ''Burn'', CreationDate = 0, PriceLimit = Finite 10, StagingArea = snapA,
      Snapshots = snaps\<rparr>"

text \<open>A snapshot that costs nothing but holds a card that was not found.\<close>

definition snapUnknown :: Snapshot where
  "snapUnknown =
     \<lparr>Date = 1, Decklist = [],
      Sideboard = [\<lparr>Name = str ''Blcak Lotus'', Count = 1, PricePer = 0, NotFound = True\<rparr>],
      Commander = noCommander, IsGrandfatherLegal = True\<rparr>"

section \<open>Example runs of the scraper\<close>

text \<open>
  An index page with one set link, and four versions of the listing page behind it: one
  with the prices 5 and 3 for two spellings of Shock and 7 for Lightning Bolt, one with the
  price texts NaN and $3.00 for the two spellings of Shock, one with a price text that is
  no number, and one that cannot be fetched. \<open>strconv.ParseFloat\<close> takes the text NaN for
  the float64 NaN and returns no error.
\<close>

definition alphaURL :: gostring where
  "alphaURL = str ''http://magic.tcgplayer.com/db/search_result.asp?set_name=Alpha''"

definition indexDoc :: Document where
  "indexDoc =
     \<lparr>Anchors = [Some (str ''/db/search_result.asp?set_name=Alpha''), None, Some (str ''/about'')],
      Cells = []\<rparr>"

definition saleCell :: "gostring \<Rightarrow> gostring \<Rightarrow> Cell" where
  "saleCell name price =
     \<lparr>Bgcolor = Some (str ''#D1DFFC''),
      Href = Some (str ''/db/card.asp?cn='' @ name @ str ''&sn=Alpha''),
      CellText = price\<rparr>"

definition goodPage :: Document where
  "goodPage =
     \<lparr>Anchors = [],
      Cells = [saleCell (str ''Shock'') (str '' $5.00 ''),
               saleCell (str ''SHOCK'') (str ''$3.00''),
               saleCell (str ''Lightning Bolt'') (str ''$7.00'')]\<rparr>"

definition nanPage :: Document where
  "nanPage =
     \<lparr>Anchors = [],
      Cells = [saleCell (str ''Shock'') (str ''NaN''),
               saleCell (str ''SHOCK'') (str ''$3.00'')]\<rparr>"

definition badPage :: Document where
  "badPage = \<lparr>Anchors = [], Cells = [saleCell (str ''Shock'') (str ''N/A'')]\<rparr>"

definition parseFloatEx :: "gostring \<Rightarrow> error + Money" where
  "parseFloatEx s =
     (if s = str ''5.00'' then Inr (Finite 5) else if s = str ''3.00'' then Inr (Finite 3)
      else if s = str ''7.00'' then Inr (Finite 7) else if s = str ''NaN'' then Inr NaN
      else Inl (Error (str ''invalid syntax'')))"

definition world :: "error + Document \<Rightarrow> World" where
  "world page =
     \<lparr>NewDocument = (\<lambda>url. if url = indexURL then Inr indexDoc
                           else if url = alphaURL then page
                           else Inl (Error (str ''not found''))),
      ParseFloat = parseFloatEx,
      Unicode = asciiTables,
      RemoveAllPricesErr = None, InsertPricesErr = None,
      RemoveAllStatsErr = None, InsertStatsErr = None\<rparr>"

definition oldDb :: Db where
  "oldDb =
     \<lparr>Prices = [\<lparr>ID = str ''shock'', EntryName = str ''Shock'', Price = Finite 9\<rparr>],
      Stats = [\<lparr>LastPriceUpdate = 1, LastPriceUpdateError = None\<rparr>]\<rparr>"

section \<open>Example memory\<close>

text \<open>
  A memory with one snapshot of four Shocks in the decklist and ten Islands in the
  sideboard; the memory after \<open>Clone\<close>; and that memory after the clone's Shock entry
  was set to a count of 100, its decklist array was overwritten with a pointer to a new
  entry, and its sideboard array was emptied.
\<close>

definition shocks :: CardEntry where
  "shocks = \<lparr>Name = str ''Shock'', Count = 4, PricePer = Finite 3, NotFound = False\<rparr>"

definition islands :: CardEntry where
  "islands = \<lparr>Name = str ''Island'', Count = 10, PricePer = 0, NotFound = False\<rparr>"

definition heapEx :: Heap where
  "heapEx = \<lparr>Cards = [shocks, islands], Arrays = [[Some 0], [Some 1]]\<rparr>"

definition snapRefEx :: SnapshotRef where
  "snapRefEx =
     \<lparr>RefDate = 1, RefDecklist = Some 0, RefSideboard = Some 1, RefCommander = noCommander,
      RefIsGrandfatherLegal = False\<rparr>"

definition clonedHeap :: Heap where
  "clonedHeap =
     \<lparr>Cards = [shocks, islands, shocks, islands],
      Arrays = [[Some 0], [Some 1], [Some 2], [Some 3]]\<rparr>"

definition cloneRef :: SnapshotRef where
  "cloneRef =
     \<lparr>RefDate = 1, RefDecklist = Some 2, RefSideboard = Some 3, RefCommander = noCommander,
      RefIsGrandfatherLegal = False\<rparr>"

definition mutatedHeap :: Heap where
  "mutatedHeap =
     \<lparr>Cards = [shocks, islands, shocks\<lparr>Count := 100\<rparr>, islands,
               \<lparr>Name = str ''Mox Ruby'', Count = 1, PricePer = Finite 900, NotFound = False\<rparr>],
      Arrays = [[Some 0], [Some 1], [Some 4], []]\<rparr>"

section \<open>Theorems on legality\<close>

lemma addPrices_foldl:
  "addPrices F r cs = foldl (fadd F) r (map (CardEntry_TotalPrice F) cs)"
  by (induction cs arbitrary: r) simp_all

lemma anyNotFound_iff: "anyNotFound cs \<longleftrightarrow> (\<exists>c\<in>set cs. NotFound c)"
  by (induction cs) simp_all

lemma fle_Finite: "fle (Finite x) (Finite y) \<longleftrightarrow> x \<le> y"
  by (auto simp: fle_def)

text \<open>
  C1. Whatever the arithmetic of float64 computes: for every deck \<open>d\<close> and snapshot \<open>s\<close>,
  \<open>IsSnapshotLegal\<close> returns false if the commander is present and marked not found, or if
  an entry of the decklist or of the sideboard is marked not found; otherwise it returns
  true exactly when the snapshot is grandfathered or its total price is at most the deck's
  price limit in the order of float64. The total price is the float64 sum, taken from zero
  in the order of the lists, of \<open>PricePer * Count\<close> over the entries of the decklist and
  then of the sideboard, plus the commander's price when the commander is present.
\<close>

theorem IsSnapshotLegal_spec:
  "IsSnapshotLegal F d (Some s) =
     Inr (if (IsPresent (Commander s) \<and> CommanderNotFound (Commander s))
             \<or> (\<exists>c\<in>set (Decklist s). NotFound c) \<or> (\<exists>c\<in>set (Sideboard s). NotFound c)
          then False
          else IsGrandfatherLegal s \<or> fle (TotalPrice F s) (PriceLimit d))
   \<and> TotalPrice F s =
       (let entries = foldl (fadd F) 0
                        (map (\<lambda>c. fmul F (PricePer c) (fromInt F (Count c)))
                             (Decklist s @ Sideboard s))
        in if IsPresent (Commander s) then fadd F entries (CommanderPrice (Commander s))
           else entries)
   \<and> (fle (Finite x) (Finite y) \<longleftrightarrow> x \<le> y) \<and> \<not> fle NaN b \<and> \<not> fle a NaN"
proof -
  have legal: "IsSnapshotLegal F d (Some s) =
     Inr (if (IsPresent (Commander s) \<and> CommanderNotFound (Commander s))
             \<or> (\<exists>c\<in>set (Decklist s). NotFound c) \<or> (\<exists>c\<in>set (Sideboard s). NotFound c)
          then False
          else IsGrandfatherLegal s \<or> fle (TotalPrice F s) (PriceLimit d))"
    by (simp add: IsSnapshotLegal_def anyNotFound_iff)
  have each: "CardEntry_TotalPrice F = (\<lambda>c. fmul F (PricePer c) (fromInt F (Count c)))"
    by (rule ext) (simp add: CardEntry_TotalPrice_def)
  have total: "TotalPrice F s =
       (let entries = foldl (fadd F) 0
                        (map (\<lambda>c. fmul F (PricePer c) (fromInt F (Count c)))
                             (Decklist s @ Sideboard s))
        in if IsPresent (Commander s) then fadd F entries (CommanderPrice (Commander s))
           else entries)"
    by (simp add: TotalPrice_def Free_def addPrices_foldl Let_def each)
  have order: "(fle (Finite x) (Finite y) \<longleftrightarrow> x \<le> y) \<and> \<not> fle NaN b \<and> \<not> fle a NaN"
    using fle_Finite[of x y] by (simp add: fle_def)
  from legal total order show ?thesis by (intro conjI) simp_all
qed

text \<open>
  The grandfathered snapshot \<open>snapUnknown\<close> costs nothing and is illegal all the same, for
  its card that was not found; \<open>snapA\<close> costs 12 and is illegal in a deck limited to 10.
\<close>

theorem IsSnapshotLegal_spec_witness:
  "IsSnapshotLegal exactOps (deckWith []) (Some snapUnknown) = Inr False \<and>
   TotalPrice exactOps snapUnknown = Finite 0 \<and>
   IsSnapshotLegal exactOps (deckWith []) (Some snapA) = Inr False \<and>
   TotalPrice exactOps snapA = Finite 12"
  using IsSnapshotLegal_spec [of exactOps "deckWith []" snapUnknown]
        IsSnapshotLegal_spec [of exactOps "deckWith []" snapA]
  by (simp add: snapUnknown_def snapA_def noCommander_def deckWith_def exactOps_def
                zero_float64_def fle_def)

text \<open>
  C3. The claim is that \<open>IsLegal\<close> returns false for a deck without snapshots. In the code
  \<open>CurrentPriceSnapshot\<close> returns nil for such a deck, and \<open>IsSnapshotLegal\<close> reads
  \<open>s.Commander\<close> of that nil pointer before it reaches its test \<open>s != nil\<close>: the call
  panics and returns nothing.
\<close>

theorem IsLegal_no_snapshots_panics:
  "IsLegal F (d\<lparr>Snapshots := []\<rparr>) = Inl NilPointerDereference"
  by (simp add: IsLegal_def CurrentPriceSnapshot_def CurrentPriceSnapshotIndex_def
                IsSnapshotLegal_def)

section \<open>Theorems on the current price snapshot\<close>

subsection \<open>The order of float64\<close>





subsection \<open>The loop\<close>


subsection \<open>The example histories\<close>





subsection \<open>The claim\<close>




section \<open>Theorems on the decklist parser\<close>

subsection \<open>The matcher on a line of the expected form\<close>

lemma word_not_space: "isWordChar c \<Longrightarrow> \<not> isSpaceClass c"
  by (auto simp: isWordChar_def isSpaceClass_def isDigit_def)

lemma word_not_IsSpace: "isWordChar c \<Longrightarrow> \<not> IsSpace c"
  by (auto simp: isWordChar_def IsSpace_def isDigit_def)

lemma space_not_digit: "isSpaceClass c \<Longrightarrow> \<not> isDigit c"
  by (auto simp: isSpaceClass_def isDigit_def)

lemma space_not_X: "isSpaceClass c \<Longrightarrow> \<not> isX c"
  by (auto simp: isSpaceClass_def isX_def)

lemma X_not_digit: "isX c \<Longrightarrow> \<not> isDigit c"
  by (auto simp: isX_def isDigit_def)

lemma digit_is_word: "isDigit c \<Longrightarrow> isWordChar c"
  by (simp add: isWordChar_def)

lemma matchName_whole:
  assumes "isWordChar c" "r \<noteq> []" "list_all notNewline r"
  shows "matchName (c # r) = Some (c # r, [])"
proof -
  have run: "takeWhile notNewline r = r" "dropWhile notNewline r = []"
    using assms(3) by (simp_all add: list_all_iff)
  show ?thesis using assms(1,2) by (simp add: matchName_def run)
qed

lemma matchSpacesStar_name:
  assumes "list_all isSpaceClass ws" "isWordChar c" "r \<noteq> []" "list_all notNewline r"
  shows "matchSpacesStar (ws @ c # r) = Some (c # r, [])"
  using assms(1)
proof (induction ws)
  case Nil
  show ?case using assms(2-) by (simp add: word_not_space matchName_whole)
next
  case (Cons w ws)
  then show ?case by simp
qed

lemma matchSpacesPlus_name:
  assumes "ws \<noteq> []" "list_all isSpaceClass ws" "isWordChar c" "r \<noteq> []" "list_all notNewline r"
  shows "matchSpacesPlus (ws @ c # r) = Some (c # r, [])"
proof -
  obtain w ws' where ws: "ws = w # ws'" using assms(1) by (cases ws) auto
  with assms(2) have "isSpaceClass w" "list_all isSpaceClass ws'" by simp_all
  then show ?thesis
    using assms(3-) by (simp add: ws matchSpacesPlus_def matchSpacesStar_name)
qed

text \<open>The optional letter: \<open>xs\<close> is empty or one of x and X.\<close>

lemma matchOptX_name:
  assumes "xs = [] \<or> (\<exists>x. xs = [x] \<and> isX x)"
    and "ws \<noteq> []" "list_all isSpaceClass ws" "isWordChar c" "r \<noteq> []" "list_all notNewline r"
  shows "matchOptX (xs @ ws @ c # r) = Some (c # r, [])"
proof -
  obtain w ws' where ws: "ws = w # ws'" using assms(2) by (cases ws) auto
  with assms(3) have w: "isSpaceClass w" by simp
  from assms(1) show ?thesis
  proof
    assume "xs = []"
    then show ?thesis
      using matchSpacesPlus_name[OF assms(2-)] w
      by (simp add: ws matchOptX_def space_not_X)
  next
    assume "\<exists>x. xs = [x] \<and> isX x"
    then obtain x where "xs = [x]" "isX x" by blast
    then show ?thesis
      using matchSpacesPlus_name[OF assms(2-)] by (simp add: matchOptX_def)
  qed
qed

lemma matchDigitsStar_name:
  assumes "list_all isDigit ds"
    and "xs = [] \<or> (\<exists>x. xs = [x] \<and> isX x)"
    and "ws \<noteq> []" "list_all isSpaceClass ws" "isWordChar c" "r \<noteq> []" "list_all notNewline r"
  shows "matchDigitsStar g (ds @ xs @ ws @ c # r) = Some (g @ ds, c # r, [])"
  using assms(1)
proof (induction ds arbitrary: g)
  case Nil
  obtain y ys where first: "xs @ ws @ c # r = y # ys" "\<not> isDigit y"
    using assms(2,3,4) by (cases ws) (auto simp: space_not_digit X_not_digit)
  have "matchDigitsStar g (y # ys) = Some (g, c # r, [])"
    using first(2) matchOptX_name[OF assms(2-)] by (simp add: first(1))
  then show ?case by (simp add: first(1))
next
  case (Cons d ds)
  then show ?case by simp
qed

lemma findMatch_counted:
  assumes "ds \<noteq> []" "list_all isDigit ds"
    and "xs = [] \<or> (\<exists>x. xs = [x] \<and> isX x)"
    and "ws \<noteq> []" "list_all isSpaceClass ws" "isWordChar c" "r \<noteq> []" "list_all notNewline r"
  shows "findMatch (ds @ xs @ ws @ c # r) = Some (ds, c # r, [])"
proof -
  obtain d ds' where ds: "ds = d # ds'" using assms(1) by (cases ds) auto
  with assms(2) have d: "isDigit d" "list_all isDigit ds'" by simp_all
  have "matchCount (ds @ xs @ ws @ c # r) = Some (ds, c # r, [])"
    using d matchDigitsStar_name[OF d(2) assms(3-), of "[d]"] by (simp add: ds matchCount_def)
  then show ?thesis by (simp add: ds matchHere_def)
qed

lemma findMatch_Nil: "findMatch [] = None"
  by (simp add: matchHere_def matchCount_def matchName_def)

lemma digitsValue_nonneg: "list_all isDigit ds \<Longrightarrow> 0 \<le> n \<Longrightarrow> n \<le> digitsValue n ds"
proof (induction ds arbitrary: n)
  case Nil
  then show ?case by simp
next
  case (Cons d ds)
  have step: "n \<le> n * 10 + (int d - 48)" using Cons.prems by (simp add: isDigit_def)
  with Cons.prems have "n * 10 + (int d - 48) \<le> digitsValue (n * 10 + (int d - 48)) ds"
    by (intro Cons.IH) simp_all
  with step show ?case by simp
qed

lemma Atoi_digits:
  assumes "ds \<noteq> []" "list_all isDigit ds"
  shows "Atoi ds = (if digitsValue 0 ds \<le> 2 ^ 63 - 1 then Inr (digitsValue 0 ds) else Inl ErrRange)"
proof -
  obtain d ds' where ds: "ds = d # ds'" using assms(1) by (cases ds) auto
  with assms(2) have "isDigit d" by simp
  then have nosign: "d \<noteq> 45" "d \<noteq> 43" by (auto simp: isDigit_def)
  have "0 \<le> digitsValue 0 ds" using digitsValue_nonneg[OF assms(2), of 0] by simp
  then have "\<not> digitsValue 0 ds < - (2 ^ 63)" by simp
  then show ?thesis using assms nosign
    by (simp add: Atoi_def ds Let_def del: digitsValue.simps)
qed

lemma TrimSpace_id:
  assumes "\<not> IsSpace c" "r \<noteq> []" "\<not> IsSpace (last r)"
  shows "TrimSpace (c # r) = c # r"
proof -
  obtain y ys where rv: "rev r = y # ys"
    using assms(2) by (cases "rev r") auto
  then have "y = last r"
    using assms(2) by (metis hd_rev list.sel(1))
  with assms(3) have y: "\<not> IsSpace y" by simp
  have "dropWhile IsSpace (rev (dropWhile IsSpace (c # r))) = rev (c # r)"
    using assms(1) y by (simp add: rv)
  then show ?thesis by (simp add: TrimSpace_def)
qed

lemma parse_counted_line:
  assumes "ds \<noteq> []" "list_all isDigit ds" "digitsValue 0 ds \<le> 2 ^ 63 - 1"
    and "xs = [] \<or> (\<exists>x. xs = [x] \<and> isX x)"
    and "ws \<noteq> []" "list_all isSpaceClass ws"
    and "isWordChar c" "r \<noteq> []" "list_all notNewline r" "\<not> IsSpace (last r)"
  shows "ParseCardEntryLine (ds @ xs @ ws @ c # r) =
           Some \<lparr>Name = c # r, Count = digitsValue 0 ds, PricePer = 0, NotFound = False\<rparr>"
proof -
  have "FindAllStringSubmatch (ds @ xs @ ws @ c # r) = [(ds, c # r)]"
    using findMatch_counted[OF assms(1,2,4,5,6,7,8,9)] findMatch_Nil by simp
  then show ?thesis
    using Atoi_digits[OF assms(1,2)] assms(3) TrimSpace_id[OF word_not_IsSpace[OF assms(7)] assms(8,10)]
    by (simp add: ParseCardEntryLine_def)
qed

subsection \<open>Lines without a count, lines without a name, and the count\<close>

lemma parse_plain_line:
  assumes "isWordChar c" "\<not> isDigit c" "r \<noteq> []" "list_all notNewline r" "\<not> IsSpace (last r)"
  shows "ParseCardEntryLine (c # r) =
           Some \<lparr>Name = c # r, Count = 1, PricePer = 0, NotFound = False\<rparr>"
proof -
  have "findMatch (c # r) = Some ([], c # r, [])"
    using assms(2) matchName_whole[OF assms(1,3,4)] by (simp add: matchHere_def matchCount_def)
  then have "FindAllStringSubmatch (c # r) = [([], c # r)]"
    using findMatch_Nil by simp
  then show ?thesis
    using TrimSpace_id[OF word_not_IsSpace[OF assms(1)] assms(3,5)]
    by (simp add: ParseCardEntryLine_def Atoi_def)
qed

lemma matchName_no_word: "\<forall>c\<in>set s. \<not> isWordChar c \<Longrightarrow> matchName s = None"
  by (cases s) (simp_all add: matchName_def)

lemma matchHere_no_word: "\<forall>c\<in>set s. \<not> isWordChar c \<Longrightarrow> matchHere s = None"
proof -
  assume nw: "\<forall>c\<in>set s. \<not> isWordChar c"
  then have "matchCount s = None"
    by (cases s) (auto simp: matchCount_def dest: digit_is_word)
  with nw show ?thesis by (simp add: matchHere_def matchName_no_word)
qed

lemma findMatch_no_word: "\<forall>c\<in>set s. \<not> isWordChar c \<Longrightarrow> findMatch s = None"
  by (induction s) (simp_all add: matchHere_no_word)

lemma parse_no_word: "\<forall>c\<in>set s. \<not> isWordChar c \<Longrightarrow> ParseCardEntryLine s = None"
  by (simp add: ParseCardEntryLine_def findMatch_no_word)

lemma parseLinesLoop_map_filter:
  "parseLinesLoop entries ls = entries @ List.map_filter ParseCardEntryLine ls"
  by (induction ls arbitrary: entries) (simp_all split: option.splits)

lemma splitCRLF_no_CR: "13 \<notin> set l \<Longrightarrow> splitCRLF cur l = [cur @ l]"
  by (induction cur l rule: splitCRLF.induct) simp_all

lemma splitCRLF_line:
  "13 \<notin> set l \<Longrightarrow> splitCRLF cur (l @ 13 # 10 # rest) = (cur @ l) # splitCRLF [] rest"
  by (induction cur l rule: splitCRLF.induct) simp_all

lemma splitCRLF_join:
  "ls \<noteq> [] \<Longrightarrow> \<forall>l\<in>set ls. 13 \<notin> set l \<Longrightarrow> splitCRLF [] (joinCRLF ls) = ls"
proof (induction ls rule: joinCRLF.induct)
  case 1
  then show ?case by simp
next
  case (2 l)
  then show ?case by (simp add: splitCRLF_no_CR)
next
  case (3 l l' ls)
  then show ?case using splitCRLF_line[of l "[]" "joinCRLF (l' # ls)"] by simp
qed

lemma matchDigitsStar_group1:
  "matchDigitsStar g s = Some (g1, g2, rest) \<Longrightarrow> list_all isDigit g \<Longrightarrow> list_all isDigit g1"
proof (induction s arbitrary: g)
  case Nil
  then show ?case by auto
next
  case (Cons c r)
  show ?case
  proof (cases "isDigit c \<and> matchDigitsStar (g @ [c]) r \<noteq> None")
    case True
    with Cons.prems(1) have "matchDigitsStar (g @ [c]) r = Some (g1, g2, rest)"
      by (auto split: option.splits)
    moreover have "list_all isDigit (g @ [c])" using True Cons.prems(2) by simp
    ultimately show ?thesis by (rule Cons.IH)
  next
    case False
    with Cons.prems(1) have "g1 = g"
      by (auto split: if_splits option.splits)
    with Cons.prems(2) show ?thesis by simp
  qed
qed

lemma matchHere_group1: "matchHere s = Some (g1, g2, rest) \<Longrightarrow> list_all isDigit g1"
proof -
  assume m: "matchHere s = Some (g1, g2, rest)"
  show ?thesis
  proof (cases "matchCount s")
    case None
    with m show ?thesis by (auto simp: matchHere_def)
  next
    case (Some t)
    with m have "matchCount s = Some (g1, g2, rest)" by (simp add: matchHere_def)
    then obtain c r where "isDigit c" "matchDigitsStar [c] r = Some (g1, g2, rest)"
      by (auto simp: matchCount_def split: list.splits if_splits)
    then show ?thesis using matchDigitsStar_group1[of "[c]" r g1 g2 rest] by simp
  qed
qed

lemma findMatch_group1: "findMatch s = Some (g1, g2, rest) \<Longrightarrow> list_all isDigit g1"
  by (induction s) (auto split: option.splits dest: matchHere_group1)

lemma FindAll_group1:
  assumes "FindAllStringSubmatch s = (g1, g2) # ms"
  shows "list_all isDigit g1"
proof -
  from assms obtain rest where "findMatch s = Some (g1, g2, rest)"
    by (auto split: option.splits)
  then show ?thesis by (rule findMatch_group1)
qed

lemma digitsValue_zero:
  "list_all isDigit ds \<Longrightarrow> 0 \<le> n \<Longrightarrow> digitsValue n ds = 0 \<longleftrightarrow> n = 0 \<and> set ds \<subseteq> {48}"
proof (induction ds arbitrary: n)
  case Nil
  then show ?case by simp
next
  case (Cons d ds)
  have d: "48 \<le> d" "d \<le> 57" using Cons.prems(1) by (simp_all add: isDigit_def)
  have "0 \<le> n * 10 + (int d - 48)" using d Cons.prems(2) by simp
  with Cons have "digitsValue (n * 10 + (int d - 48)) ds = 0 \<longleftrightarrow>
      n * 10 + (int d - 48) = 0 \<and> set ds \<subseteq> {48}" by simp
  moreover have "n * 10 + (int d - 48) = 0 \<longleftrightarrow> n = 0 \<and> d = 48"
    using d Cons.prems(2) by auto
  ultimately show ?case by auto
qed

lemma digitsValue_snoc: "digitsValue n (ds @ [d]) = digitsValue n ds * 10 + (int d - 48)"
  by (induction ds arbitrary: n) simp_all

lemma digitsValue_natDigits: "digitsValue 0 (natDigits n) = int n"
proof (induction n rule: natDigits.induct)
  case (1 n)
  show ?case
  proof (cases "n < 10")
    case True
    then show ?thesis by (subst natDigits.simps) simp
  next
    case False
    then have "digitsValue 0 (natDigits n) = int (n div 10) * 10 + int (n mod 10)"
      using 1 by (subst natDigits.simps) (simp add: digitsValue_snoc)
    then show ?thesis by (simp add: zdiv_int zmod_int)
  qed
qed

lemma parsed_count:
  assumes "ParseCardEntryLine s = Some e"
  shows "1 \<le> Count e \<or>
         (Count e = 0 \<and>
          (\<exists>g1 g2. FindAllStringSubmatch s = [(g1, g2)] \<and> g1 \<noteq> [] \<and> set g1 = {48}))"
proof -
  from assms obtain g1 g2 where all: "FindAllStringSubmatch s = [(g1, g2)]"
    and e: "Count e = (case Atoi g1 of Inl err \<Rightarrow> 1 | Inr n \<Rightarrow> n)"
    by (cases "FindAllStringSubmatch s")
       (auto simp: ParseCardEntryLine_def Let_def split: if_splits list.splits
             simp del: FindAllStringSubmatch.simps)
  have dig: "list_all isDigit g1" using all by (rule FindAll_group1)
  show ?thesis
  proof (cases "g1 = []")
    case True
    then show ?thesis using e by (simp add: Atoi_def)
  next
    case False
    have nn: "0 \<le> digitsValue 0 g1" using digitsValue_nonneg[OF dig, of 0] by simp
    show ?thesis
    proof (cases "digitsValue 0 g1 = 0")
      case True
      then have "set g1 \<subseteq> {48}" using digitsValue_zero[OF dig, of 0] by simp
      with False have "set g1 = {48}" by (cases g1) auto
      with True False all e show ?thesis by (simp add: Atoi_digits[OF False dig])
    next
      case nz: False
      with nn have "1 \<le> digitsValue 0 g1" by simp
      then show ?thesis using e by (simp add: Atoi_digits[OF False dig])
    qed
  qed
qed

lemma map_filter_set: "x \<in> set (List.map_filter f xs) \<Longrightarrow> \<exists>y\<in>set xs. f y = Some x"
  by (induction xs) (auto split: option.splits)

lemma parsed_lines_count:
  assumes "e \<in> set (ParseCardEntryLines blob)"
  shows "0 \<le> Count e"
proof -
  from assms obtain l where "ParseCardEntryLine l = Some e"
    by (auto simp: ParseCardEntryLines_def parseLinesLoop_map_filter dest: map_filter_set)
  from parsed_count[OF this] show ?thesis by auto
qed

subsection \<open>The parser on concrete lines\<close>

lemmas parser_defs = ParseCardEntryLine_def str_def matchHere_def matchCount_def matchOptX_def
  matchSpacesPlus_def matchName_def isDigit_def isX_def isSpaceClass_def isWordChar_def
  notNewline_def Atoi_def TrimSpace_def IsSpace_def

lemma parse_3_Shock:
  "ParseCardEntryLine (str ''3 Shock'') =
     Some \<lparr>Name = str ''Shock'', Count = 3, PricePer = 0, NotFound = False\<rparr>"
  by (simp add: parser_defs)

lemma parse_empty: "ParseCardEntryLine [] = None"
  by (simp add: parser_defs)

subsection \<open>Skipped runes and the trimming of the name\<close>

lemma matchHere_not_word: "\<not> isWordChar x \<Longrightarrow> matchHere (x # xs) = None"
  by (auto simp: matchHere_def matchCount_def matchName_def dest: digit_is_word)

lemma findMatch_skip: "\<forall>x\<in>set pre. \<not> isWordChar x \<Longrightarrow> findMatch (pre @ s) = findMatch s"
  by (induction pre) (simp_all add: matchHere_not_word)

lemma TrimSpace_parts:
  "\<exists>lead trail. s = lead @ TrimSpace s @ trail \<and> list_all IsSpace lead \<and> list_all IsSpace trail \<and>
     (TrimSpace s = [] \<or> (\<not> IsSpace (hd (TrimSpace s)) \<and> \<not> IsSpace (last (TrimSpace s))))"
proof -
  let ?lead = "takeWhile IsSpace s"
  let ?s1 = "dropWhile IsSpace s"
  let ?trail = "rev (takeWhile IsSpace (rev ?s1))"
  have split: "?s1 = TrimSpace s @ ?trail"
  proof -
    have "rev (dropWhile IsSpace (rev ?s1)) @ rev (takeWhile IsSpace (rev ?s1)) = rev (rev ?s1)"
      by (metis rev_append takeWhile_dropWhile_id)
    then show ?thesis by (simp add: TrimSpace_def)
  qed
  have whole: "s = ?lead @ TrimSpace s @ ?trail"
    using split by (metis takeWhile_dropWhile_id)
  have lead: "list_all IsSpace ?lead"
    by (auto simp: list_all_iff dest: set_takeWhileD)
  have trail: "list_all IsSpace ?trail"
    by (auto simp: list_all_iff dest: set_takeWhileD)
  have ends: "\<not> IsSpace (hd (TrimSpace s)) \<and> \<not> IsSpace (last (TrimSpace s))" if ne: "TrimSpace s \<noteq> []"
  proof -
    from ne have d: "dropWhile IsSpace (rev ?s1) \<noteq> []" by (simp add: TrimSpace_def)
    have "last (TrimSpace s) = hd (dropWhile IsSpace (rev ?s1))"
      using d by (simp add: TrimSpace_def last_rev)
    then have l: "\<not> IsSpace (last (TrimSpace s))"
      using d hd_dropWhile[of IsSpace "rev ?s1"] by simp
    from ne split have "hd (TrimSpace s) = hd ?s1" by (metis hd_append2)
    moreover from ne split have "?s1 \<noteq> []" by (metis append_is_Nil_conv)
    ultimately have "\<not> IsSpace (hd (TrimSpace s))"
      using hd_dropWhile[of IsSpace s] by simp
    with l show ?thesis by simp
  qed
  from whole lead trail ends show ?thesis by blast
qed

lemma TrimSpace_name:
  assumes "name \<noteq> []" "\<not> IsSpace (hd name)" "\<not> IsSpace (last name)" "list_all IsSpace trail"
  shows "TrimSpace (name @ trail) = name"
proof -
  obtain c r where name: "name = c # r" using assms(1) by (cases name) auto
  have front: "dropWhile IsSpace (name @ trail) = name @ trail"
    using assms(2) by (simp add: name)
  obtain y ys where rv: "rev name = y # ys" using assms(1) by (cases "rev name") auto
  then have "y = last name" using assms(1) by (metis hd_rev list.sel(1))
  with assms(3) have y: "\<not> IsSpace y" by simp
  have "dropWhile IsSpace (rev trail @ rev name) = dropWhile IsSpace (rev name)"
    using assms(4) by (intro dropWhile_append2) (simp add: list_all_iff)
  also have "\<dots> = rev name" using y by (simp add: rv)
  finally show ?thesis by (simp add: TrimSpace_def front)
qed

lemma parse_counted_any:
  assumes "\<forall>x\<in>set pre. \<not> isWordChar x"
    and "ds \<noteq> []" "list_all isDigit ds" "digitsValue 0 ds \<le> 2 ^ 63 - 1"
    and "ws \<noteq> []" "list_all isSpaceClass ws"
    and "isWordChar c" "r \<noteq> []" "list_all notNewline r"
  shows "ParseCardEntryLine (pre @ ds @ ws @ c # r) =
           Some \<lparr>Name = TrimSpace (c # r), Count = digitsValue 0 ds, PricePer = 0,
                 NotFound = False\<rparr>"
proof -
  have "findMatch (pre @ ds @ ws @ c # r) = Some (ds, c # r, [])"
    using findMatch_counted[of ds "[]" ws c r] assms(2,3,5-) findMatch_skip[OF assms(1)]
    by simp
  then have "FindAllStringSubmatch (pre @ ds @ ws @ c # r) = [(ds, c # r)]"
    using findMatch_Nil by simp
  then show ?thesis
    using Atoi_digits[OF assms(2,3)] assms(4)
    by (simp add: ParseCardEntryLine_def)
qed

lemma parse_plain_any:
  assumes "\<forall>x\<in>set pre. \<not> isWordChar x"
    and "isWordChar c" "\<not> isDigit c" "r \<noteq> []" "list_all notNewline r"
  shows "ParseCardEntryLine (pre @ c # r) =
           Some \<lparr>Name = TrimSpace (c # r), Count = 1, PricePer = 0, NotFound = False\<rparr>"
proof -
  have "findMatch (c # r) = Some ([], c # r, [])"
    using assms(3) matchName_whole[OF assms(2,4,5)] by (simp add: matchHere_def matchCount_def)
  then have "findMatch (pre @ c # r) = Some ([], c # r, [])"
    using findMatch_skip[OF assms(1)] by simp
  then have "FindAllStringSubmatch (pre @ c # r) = [([], c # r)]"
    using findMatch_Nil by simp
  then show ?thesis
    by (simp add: ParseCardEntryLine_def Atoi_def)
qed

subsection \<open>The claims\<close>

text \<open>
  C6, as stated: every entry that the parser emits has a count of at least 1. The count
  of a line is what \<open>strconv.Atoi\<close> makes of the digits before the name, and nothing
  rejects a zero.
\<close>

theorem ParseCardEntryLine_zero_count:
  "ParseCardEntryLine (str ''0 Island'') =
     Some \<lparr>Name = str ''Island'', Count = 0, PricePer = 0, NotFound = False\<rparr>"
  by (simp add: parser_defs)

text \<open>
  C6, amended. The count of an emitted entry is never negative. It is at least 1 unless
  the line has a count that is written with zeros only, and then it is 0. Every entry of
  a \<open>ParseCardEntryLines\<close> result has a count of at least 0.
\<close>

theorem ParseCardEntryLine_count_range:
  "(ParseCardEntryLine line = Some e \<longrightarrow>
      1 \<le> Count e \<or>
      (Count e = 0 \<and>
       (\<exists>g1 g2. FindAllStringSubmatch line = [(g1, g2)] \<and> g1 \<noteq> [] \<and> set g1 = {48}))) \<and>
   (\<forall>e\<in>set (ParseCardEntryLines blob). 0 \<le> Count e)"
  using parsed_count[of line e] parsed_lines_count[of _ blob] by blast

theorem ParseCardEntryLine_count_range_witness:
  "ParseCardEntryLine (str ''3 Shock'') =
     Some \<lparr>Name = str ''Shock'', Count = 3, PricePer = 0, NotFound = False\<rparr> \<and>
   \<lparr>Name = str ''Shock'', Count = 3, PricePer = 0, NotFound = False\<rparr>
     \<in> set (ParseCardEntryLines (str ''3 Shock'')) \<and>
   (0::int) \<le> Count \<lparr>Name = str ''Shock'', Count = 3, PricePer = 0, NotFound = False\<rparr>"
proof -
  have "splitCRLF [] (str ''3 Shock'') = [str ''3 Shock'']"
    by (simp add: str_def)
  then have lines: "ParseCardEntryLines (str ''3 Shock'') =
     [\<lparr>Name = str ''Shock'', Count = 3, PricePer = 0, NotFound = False\<rparr>]"
    by (simp add: ParseCardEntryLines_def parse_3_Shock)
  from ParseCardEntryLine_count_range
         [of "str ''3 Shock''"
             "\<lparr>Name = str ''Shock'', Count = 3, PricePer = 0, NotFound = False\<rparr>"
             "str ''3 Shock''"]
  show ?thesis using parse_3_Shock lines by simp
qed

text \<open>
  C7, as stated: a line is an optional count, white space, and then the rest of the line,
  trimmed, as the name. The name of the pattern is \<^verbatim>\<open>\w.+\<close>, so it has at least two runes:
  in the line ``4 X'' the count cannot be followed by a name, the whole line is taken as a
  name, and the count is 1.
\<close>

theorem ParseCardEntryLine_short_name:
  "ParseCardEntryLine (str ''4 X'') =
     Some \<lparr>Name = str ''4 X'', Count = 1, PricePer = 0, NotFound = False\<rparr>"
  by (simp add: parser_defs)

text \<open>
  C7, amended. Let the rest of a line be a text of at least two runes that starts with a
  letter, digit or underscore of ASCII and holds no line feed; runes before the count or
  the name that are no letter, digit or underscore of ASCII are passed over.
  \<^item> A line made of decimal digits of a value up to \<open>2^63 - 1\<close>, one or more of space, tab,
    line feed, form feed and carriage return, and such a rest yields that value as count
    and the rest, trimmed of white space, as name; the digits that \<open>%d\<close> prints for \<open>n\<close>
    have the value \<open>n\<close>.
  \<^item> A line that is such a rest not starting with a digit yields the trimmed rest as name,
    with count 1.
  \<^item> Trimming takes white space, and nothing else, from both ends, until neither end is
    white space: a name that neither starts nor ends with white space is what is left of
    it and any white space after it.
  \<^item> A line without any letter, digit or underscore of ASCII, so the empty line and a line
    of white space, yields no entry.
  \<^item> \<open>ParseCardEntryLines\<close> splits the text at every carriage return followed by a line
    feed, and at nothing else, and returns the entries of the lines that yield one, in the
    order of the lines.
  \<^item> ``4 Lightning Bolt'' yields count 4 and name ``Lightning Bolt'', ``Lightning Bolt''
    yields count 1, and the empty line yields none.
\<close>

theorem ParseCardEntryLine_format:
  "((\<forall>x\<in>set pre. \<not> isWordChar x) \<and>
    ds \<noteq> [] \<and> list_all isDigit ds \<and> digitsValue 0 ds \<le> 2 ^ 63 - 1 \<and>
    ws \<noteq> [] \<and> list_all isSpaceClass ws \<and>
    isWordChar c \<and> r \<noteq> [] \<and> list_all notNewline r \<longrightarrow>
      ParseCardEntryLine (pre @ ds @ ws @ c # r) =
        Some \<lparr>Name = TrimSpace (c # r), Count = digitsValue 0 ds, PricePer = 0,
              NotFound = False\<rparr>) \<and>
   digitsValue 0 (natDigits n) = int n \<and>
   ((\<forall>x\<in>set pre. \<not> isWordChar x) \<and>
    isWordChar c \<and> \<not> isDigit c \<and> r \<noteq> [] \<and> list_all notNewline r \<longrightarrow>
      ParseCardEntryLine (pre @ c # r) =
        Some \<lparr>Name = TrimSpace (c # r), Count = 1, PricePer = 0, NotFound = False\<rparr>) \<and>
   (\<exists>lead trail. s = lead @ TrimSpace s @ trail \<and>
      list_all IsSpace lead \<and> list_all IsSpace trail \<and>
      (TrimSpace s = [] \<or> (\<not> IsSpace (hd (TrimSpace s)) \<and> \<not> IsSpace (last (TrimSpace s))))) \<and>
   (name \<noteq> [] \<and> \<not> IsSpace (hd name) \<and> \<not> IsSpace (last name) \<and> list_all IsSpace sp \<longrightarrow>
      TrimSpace (name @ sp) = name) \<and>
   ((\<forall>x\<in>set line. \<not> isWordChar x) \<longrightarrow> ParseCardEntryLine line = None) \<and>
   ParseCardEntryLines blob = List.map_filter ParseCardEntryLine (splitCRLF [] blob) \<and>
   (lines \<noteq> [] \<and> (\<forall>l\<in>set lines. 13 \<notin> set l) \<longrightarrow> splitCRLF [] (joinCRLF lines) = lines) \<and>
   ParseCardEntryLine (str ''4 Lightning Bolt'') =
     Some \<lparr>Name = str ''Lightning Bolt'', Count = 4, PricePer = 0, NotFound = False\<rparr> \<and>
   ParseCardEntryLine (str ''Lightning Bolt'') =
     Some \<lparr>Name = str ''Lightning Bolt'', Count = 1, PricePer = 0, NotFound = False\<rparr> \<and>
   ParseCardEntryLine (str '''') = None"
proof -
  have counted: "(\<forall>x\<in>set pre. \<not> isWordChar x) \<and>
    ds \<noteq> [] \<and> list_all isDigit ds \<and> digitsValue 0 ds \<le> 2 ^ 63 - 1 \<and>
    ws \<noteq> [] \<and> list_all isSpaceClass ws \<and>
    isWordChar c \<and> r \<noteq> [] \<and> list_all notNewline r \<longrightarrow>
      ParseCardEntryLine (pre @ ds @ ws @ c # r) =
        Some \<lparr>Name = TrimSpace (c # r), Count = digitsValue 0 ds, PricePer = 0,
              NotFound = False\<rparr>"
    using parse_counted_any[of pre ds ws c r] by blast
  have plain: "(\<forall>x\<in>set pre. \<not> isWordChar x) \<and>
    isWordChar c \<and> \<not> isDigit c \<and> r \<noteq> [] \<and> list_all notNewline r \<longrightarrow>
      ParseCardEntryLine (pre @ c # r) =
        Some \<lparr>Name = TrimSpace (c # r), Count = 1, PricePer = 0, NotFound = False\<rparr>"
    using parse_plain_any[of pre c r] by blast
  have trim: "name \<noteq> [] \<and> \<not> IsSpace (hd name) \<and> \<not> IsSpace (last name) \<and> list_all IsSpace sp \<longrightarrow>
      TrimSpace (name @ sp) = name"
    using TrimSpace_name[of name sp] by blast
  have none: "(\<forall>x\<in>set line. \<not> isWordChar x) \<longrightarrow> ParseCardEntryLine line = None"
    using parse_no_word[of line] by simp
  have all: "ParseCardEntryLines blob = List.map_filter ParseCardEntryLine (splitCRLF [] blob)"
    by (simp add: ParseCardEntryLines_def parseLinesLoop_map_filter)
  have split: "lines \<noteq> [] \<and> (\<forall>l\<in>set lines. 13 \<notin> set l) \<longrightarrow>
      splitCRLF [] (joinCRLF lines) = lines"
    using splitCRLF_join[of lines] by simp
  have ex1: "ParseCardEntryLine (str ''4 Lightning Bolt'') =
     Some \<lparr>Name = str ''Lightning Bolt'', Count = 4, PricePer = 0, NotFound = False\<rparr>"
    by (simp add: parser_defs)
  have ex2: "ParseCardEntryLine (str ''Lightning Bolt'') =
     Some \<lparr>Name = str ''Lightning Bolt'', Count = 1, PricePer = 0, NotFound = False\<rparr>"
    by (simp add: parser_defs)
  have ex3: "ParseCardEntryLine (str '''') = None"
    by (simp add: str_def parse_empty)
  from counted digitsValue_natDigits[of n] plain TrimSpace_parts[of s] trim none all split
       ex1 ex2 ex3
  show ?thesis by (intro conjI)
qed

text \<open>
  By the theorem, without running the matcher: the line of a hyphen, a space, ``12'', a
  tab, a space, ``Counterspell'', two spaces and a carriage return yields count 12 and the
  name ``Counterspell''; the line ``Shock'' and a space yields the name ``Shock'' with
  count 1; a line of two spaces yields none; and the text of the lines ``3 Shock'', `` ''
  and ``Island'' has those three lines and yields the entries of the first and of the
  third.
\<close>

theorem ParseCardEntryLine_format_witness:
  "ParseCardEntryLine (str ''- 12'' @ [9, 32] @ str ''Counterspell  '' @ [13]) =
     Some \<lparr>Name = str ''Counterspell'', Count = 12, PricePer = 0, NotFound = False\<rparr> \<and>
   ParseCardEntryLine (str ''Shock '') =
     Some \<lparr>Name = str ''Shock'', Count = 1, PricePer = 0, NotFound = False\<rparr> \<and>
   ParseCardEntryLine (str ''  '') = None \<and>
   splitCRLF [] (joinCRLF [str ''3 Shock'', str '' '', str ''Island''])
     = [str ''3 Shock'', str '' '', str ''Island''] \<and>
   ParseCardEntryLines (joinCRLF [str ''3 Shock'', str '' '', str ''Island'']) =
     [\<lparr>Name = str ''Shock'', Count = 3, PricePer = 0, NotFound = False\<rparr>,
      \<lparr>Name = str ''Island'', Count = 1, PricePer = 0, NotFound = False\<rparr>]"
proof -
  note spec = ParseCardEntryLine_format
  note c1 = conjunct1
  note c3 = conjunct2[THEN conjunct2, THEN conjunct1]
  note c5 = conjunct2[THEN conjunct2, THEN conjunct2, THEN conjunct2, THEN conjunct1]
  note c6 = conjunct2[THEN conjunct2, THEN conjunct2, THEN conjunct2, THEN conjunct2,
                      THEN conjunct1]
  note c7 = conjunct2[THEN conjunct2, THEN conjunct2, THEN conjunct2, THEN conjunct2,
                      THEN conjunct2, THEN conjunct1]
  note c8 = conjunct2[THEN conjunct2, THEN conjunct2, THEN conjunct2, THEN conjunct2,
                      THEN conjunct2, THEN conjunct2, THEN conjunct1]
  note classes = str_def isDigit_def isSpaceClass_def isWordChar_def notNewline_def IsSpace_def
  have trim1: "TrimSpace (str ''Counterspell'' @ (str ''  '' @ [13])) = str ''Counterspell''"
    using spec[THEN c5, of "str ''Counterspell''" "str ''  '' @ [13]"]
    by (simp add: classes)
  have counted: "ParseCardEntryLine (str ''- 12'' @ [9, 32] @ str ''Counterspell  '' @ [13]) =
     Some \<lparr>Name = str ''Counterspell'', Count = 12, PricePer = 0, NotFound = False\<rparr>"
    using spec[THEN c1, of "str ''- ''" "str ''12''" "[9, 32]" 67
               "str ''ounterspell  '' @ [13]"] trim1
    by (simp add: classes)
  have trim2: "TrimSpace (str ''Shock'' @ str '' '') = str ''Shock''"
    using spec[THEN c5, of "str ''Shock''" "str '' ''"]
    by (simp add: classes)
  have plain: "ParseCardEntryLine (str ''Shock '') =
     Some \<lparr>Name = str ''Shock'', Count = 1, PricePer = 0, NotFound = False\<rparr>"
    using spec[THEN c3, of "[]" 83 "str ''hock ''"] trim2
    by (simp add: classes)
  have trim3: "TrimSpace (str ''Island'' @ []) = str ''Island''"
    using spec[THEN c5, of "str ''Island''" "[]"]
    by (simp add: classes)
  have island: "ParseCardEntryLine (str ''Island'') =
     Some \<lparr>Name = str ''Island'', Count = 1, PricePer = 0, NotFound = False\<rparr>"
    using spec[THEN c3, of "[]" 73 "str ''sland''"] trim3
    by (simp add: classes)
  have blank: "ParseCardEntryLine (str ''  '') = None" "ParseCardEntryLine (str '' '') = None"
    using spec[THEN c6, of "str ''  ''"] spec[THEN c6, of "str '' ''"]
    by (simp_all add: str_def isDigit_def isWordChar_def)
  have split: "splitCRLF [] (joinCRLF [str ''3 Shock'', str '' '', str ''Island''])
     = [str ''3 Shock'', str '' '', str ''Island'']"
    using spec[THEN c8, of "[str ''3 Shock'', str '' '', str ''Island'']"]
    by (simp add: str_def)
  have "ParseCardEntryLines (joinCRLF [str ''3 Shock'', str '' '', str ''Island'']) =
     List.map_filter ParseCardEntryLine [str ''3 Shock'', str '' '', str ''Island'']"
    using spec[THEN c7, of "joinCRLF [str ''3 Shock'', str '' '', str ''Island'']"]
    by (simp only: split)
  then have lines: "ParseCardEntryLines (joinCRLF [str ''3 Shock'', str '' '', str ''Island'']) =
     [\<lparr>Name = str ''Shock'', Count = 3, PricePer = 0, NotFound = False\<rparr>,
      \<lparr>Name = str ''Island'', Count = 1, PricePer = 0, NotFound = False\<rparr>]"
    by (simp add: parse_3_Shock blank island)
  from counted plain blank(1) split lines show ?thesis by (intro conjI)
qed

text \<open>
  C10. The parser accepts one letter x or X between the count and the white space: a
  line made of decimal digits, that letter, white space and a name yields the value of the
  digits as count and the name. ``4x Lightning Bolt'' and ``4X Lightning Bolt'' both yield
  count 4 and name ``Lightning Bolt''.
\<close>

theorem ParseCardEntryLine_count_letter:
  "(ds \<noteq> [] \<and> list_all isDigit ds \<and> digitsValue 0 ds \<le> 2 ^ 63 - 1 \<and> (x = 120 \<or> x = 88) \<and>
    ws \<noteq> [] \<and> list_all isSpaceClass ws \<and>
    isWordChar c \<and> r \<noteq> [] \<and> list_all notNewline r \<and> \<not> IsSpace (last r) \<longrightarrow>
      ParseCardEntryLine (ds @ x # ws @ c # r) =
        Some \<lparr>Name = c # r, Count = digitsValue 0 ds, PricePer = 0, NotFound = False\<rparr>) \<and>
   ParseCardEntryLine (str ''4x Lightning Bolt'') =
     Some \<lparr>Name = str ''Lightning Bolt'', Count = 4, PricePer = 0, NotFound = False\<rparr> \<and>
   ParseCardEntryLine (str ''4X Lightning Bolt'') =
     Some \<lparr>Name = str ''Lightning Bolt'', Count = 4, PricePer = 0, NotFound = False\<rparr>"
proof -
  have letter: "ds \<noteq> [] \<and> list_all isDigit ds \<and> digitsValue 0 ds \<le> 2 ^ 63 - 1 \<and>
    (x = 120 \<or> x = 88) \<and> ws \<noteq> [] \<and> list_all isSpaceClass ws \<and>
    isWordChar c \<and> r \<noteq> [] \<and> list_all notNewline r \<and> \<not> IsSpace (last r) \<longrightarrow>
      ParseCardEntryLine (ds @ x # ws @ c # r) =
        Some \<lparr>Name = c # r, Count = digitsValue 0 ds, PricePer = 0, NotFound = False\<rparr>"
    using parse_counted_line[of ds "[x]" ws c r] by (simp add: isX_def)
  have ex1: "ParseCardEntryLine (str ''4x Lightning Bolt'') =
     Some \<lparr>Name = str ''Lightning Bolt'', Count = 4, PricePer = 0, NotFound = False\<rparr>"
    by (simp add: parser_defs)
  have ex2: "ParseCardEntryLine (str ''4X Lightning Bolt'') =
     Some \<lparr>Name = str ''Lightning Bolt'', Count = 4, PricePer = 0, NotFound = False\<rparr>"
    by (simp add: parser_defs)
  from letter ex1 ex2 show ?thesis by (intro conjI)
qed

theorem ParseCardEntryLine_count_letter_witness:
  "ParseCardEntryLine (str ''20X'' @ [9] @ str ''Forest'') =
     Some \<lparr>Name = str ''Forest'', Count = 20, PricePer = 0, NotFound = False\<rparr>"
  using ParseCardEntryLine_count_letter[of "str ''20''" 88 "[9]" 70 "str ''orest''", THEN conjunct1]
  by (simp add: str_def isDigit_def isSpaceClass_def isWordChar_def notNewline_def IsSpace_def)

section \<open>Theorems on the normalizers\<close>

lemma normalizeLoop_map:
  "normalizeLoop U buffer s = buffer @ map (normalizeRune U) (filter (\<lambda>c. c \<noteq> 36) s)"
  by (induction s arbitrary: buffer) simp_all

lemma nameToIdLoop_map:
  "nameToIdLoop U buffer s = buffer @ map (ToLower U) (filter (\<lambda>c. IsLetter U c \<or> IsNumber U c) s)"
  by (induction s arbitrary: buffer) simp_all






lemma ascii_string:
  assumes "agreeOnASCII U" "\<forall>r\<in>set s. r < 128"
  shows "normalizeString U s = normalizeString asciiTables s" "nameToId U s = nameToId asciiTables s"
proof -
  have "\<forall>r\<in>set s. normalizeRune U r = normalizeRune asciiTables r \<and> ToLower U r = ToLower asciiTables r
     \<and> (IsLetter U r \<or> IsNumber U r) = (IsLetter asciiTables r \<or> IsNumber asciiTables r)"
    using assms by (auto simp: agreeOnASCII_def normalizeRune_def)
  then show "normalizeString U s = normalizeString asciiTables s" "nameToId U s = nameToId asciiTables s"
    by (induction s) (simp_all add: normalizeString_def normalizeLoop_map nameToId_def nameToIdLoop_map)
qed



subsection \<open>Case and punctuation\<close>










subsection \<open>The claim\<close>



section \<open>Theorems on the price scraper\<close>

subsection \<open>Reconciliation\<close>

















subsection \<open>The example runs\<close>

lemmas world_defs = world_def indexDoc_def goodPage_def badPage_def nanPage_def saleCell_def
  parseFloatEx_def
  alphaURL_def indexURL_def oldDb_def asciiTables_def str_def

lemma links_ex: "setLinksOf (world page) = [alphaURL]"
  by (simp add: setLinksOf_def HasPrefix_def HasSuffix_def world_defs)

lemma page_good: "scrapePage (world (Inr goodPage)) alphaURL =
   Inr (Inr [\<lparr>ID = str ''shock'', EntryName = str ''Shock'', Price = Finite 5\<rparr>,
             \<lparr>ID = str ''shock'', EntryName = str ''SHOCK'', Price = Finite 3\<rparr>,
             \<lparr>ID = str ''lightningbolt'', EntryName = str ''Lightning Bolt'',
               Price = Finite 7\<rparr>])"
  by (simp add: scrapePage_def scrapeCell_def spacesToPlus_def HasPrefix_def TrimSpace_def
        IsSpace_def TrimDollar_def removeCommas_def nameToId_def Let_def world_defs)


lemma page_bad: "scrapePage (world (Inr badPage)) alphaURL = Inl (Panic (Error (str ''invalid syntax'')))"
  by (simp add: scrapePage_def scrapeCell_def spacesToPlus_def HasPrefix_def TrimSpace_def
        IsSpace_def TrimDollar_def removeCommas_def nameToId_def Let_def world_defs)

lemma page_down: "scrapePage (world (Inl e)) alphaURL = Inr (Inl e)"
  by (simp add: scrapePage_def spacesToPlus_def world_defs)

lemma run_bad: "scrapePricesPeriodic (world (Inr badPage)) 2 oldDb =
    (oldDb, Some (Panic (Error (str ''invalid syntax''))))"
proof -
  have idx: "NewDocument (world (Inr badPage)) indexURL = Inr indexDoc" by (simp add: world_def)
  have links: "collectSetLinks (world (Inr badPage)) [] (Anchors indexDoc) = [alphaURL]"
    using links_ex[of "Inr badPage"] by (simp add: setLinksOf_def idx)
  show ?thesis
    by (simp add: scrapePricesPeriodic_def scrapePrices_def idx links page_bad)
qed

subsection \<open>The ways a run can go\<close>

lemma reconcile_append: "reconcile (reconcile m es) es' = reconcile m (es @ es')"
  by (induction es arbitrary: m) (auto split: option.splits)

lemma scrapePage_fetch: "NewDocument W (spacesToPlus url) = Inl err \<Longrightarrow> scrapePage W url = Inr (Inl err)"
  by (simp add: scrapePage_def)

lemma pageOk_iff: "pageOk res \<longleftrightarrow> (\<exists>entries. res = Inr (Inr entries))"
  by (auto simp: pageOk_def split: sum.splits)

lemma scrapeLinks_stops:
  assumes "i < length links" "\<forall>j < i. pageOk (scrapePage W (links ! j))"
  shows "scrapePage W (links ! i) = Inr (Inl err) \<Longrightarrow> scrapeLinks W m links = Inr (Inl err)"
    and "scrapePage W (links ! i) = Inl p \<Longrightarrow> scrapeLinks W m links = Inl p"
  using assms
proof (induction links arbitrary: i m)
  case Nil
  { case 1 then show ?case by simp }
  { case 2 then show ?case by simp }
next
  case (Cons link links)
  { case 1
    show ?case
    proof (cases i)
      case 0
      with 1 show ?thesis by simp
    next
      case (Suc i')
      with 1(3) have "pageOk (scrapePage W link)" by auto
      then obtain entries where ok: "scrapePage W link = Inr (Inr entries)"
        by (auto simp: pageOk_iff)
      have "scrapeLinks W (reconcile m entries) links = Inr (Inl err)"
        using 1 Suc by (intro Cons.IH(1)[of i']) auto
      with ok show ?thesis by simp
    qed }
  { case 2
    show ?case
    proof (cases i)
      case 0
      with 2 show ?thesis by simp
    next
      case (Suc i')
      with 2(3) have "pageOk (scrapePage W link)" by auto
      then obtain entries where ok: "scrapePage W link = Inr (Inr entries)"
        by (auto simp: pageOk_iff)
      have "scrapeLinks W (reconcile m entries) links = Inl p"
        using 2 Suc by (intro Cons.IH(2)[of i']) auto
      with ok show ?thesis by simp
    qed }
qed

lemma scrapeLinks_all:
  "map (scrapePage W) links = map (\<lambda>entries. Inr (Inr entries)) pages \<Longrightarrow>
     scrapeLinks W m links = Inr (Inr (reconcile m (concat pages)))"
proof (induction links arbitrary: pages m)
  case Nil
  then show ?case by simp
next
  case (Cons link links)
  then obtain es pages' where pages: "pages = es # pages'" by (cases pages) auto
  with Cons.prems have "scrapePage W link = Inr (Inr es)"
    "map (scrapePage W) links = map (\<lambda>entries. Inr (Inr entries)) pages'" by simp_all
  with Cons.IH[of pages' "reconcile m es"] show ?case
    by (simp add: pages reconcile_append)
qed

lemma scrapeCells_panic:
  "scrapeCells W entries cells = Inl p \<Longrightarrow> \<exists>text err. p = Panic err \<and> ParseFloat W text = Inl err"
proof (induction cells arbitrary: entries)
  case Nil
  then show ?case by simp
next
  case (Cons cell cells)
  show ?case
  proof (cases "scrapeCell W cell")
    case (Inl q)
    with Cons.prems have "q = p" by simp
    with Inl show ?thesis
      by (auto simp: scrapeCell_def Let_def split: option.splits if_splits sum.splits)
  next
    case (Inr r)
    with Cons show ?thesis by (cases r) auto
  qed
qed

lemma scrapePage_panic:
  "scrapePage W url = Inl p \<Longrightarrow> \<exists>text err. p = Panic err \<and> ParseFloat W text = Inl err"
  by (auto simp: scrapePage_def split: sum.splits dest: scrapeCells_panic)

lemma run_fetch_fails:
  assumes "fetchFails W err"
  shows "scrapePrices W db = (db, Inr (Some err))"
proof (cases "NewDocument W indexURL")
  case (Inl e)
  with assms have "e = err" by (auto simp: fetchFails_def setLinksOf_def)
  with Inl show ?thesis by (simp add: scrapePrices_def)
next
  case (Inr doc)
  with assms obtain i where i: "i < length (setLinksOf W)"
      "NewDocument W (spacesToPlus (setLinksOf W ! i)) = Inl err"
      "\<forall>j < i. pageOk (scrapePage W (setLinksOf W ! j))"
    by (auto simp: fetchFails_def)
  have "scrapeLinks W [] (setLinksOf W) = Inr (Inl err)"
    using scrapeLinks_stops(1)[OF i(1,3) scrapePage_fetch[OF i(2)]] .
  with Inr show ?thesis by (simp add: scrapePrices_def setLinksOf_def)
qed

lemma run_parse_fails:
  assumes "parseFails W p"
  shows "scrapePrices W db = (db, Inl p)"
proof -
  from assms obtain i where i: "i < length (setLinksOf W)"
      "scrapePage W (setLinksOf W ! i) = Inl p"
      "\<forall>j < i. pageOk (scrapePage W (setLinksOf W ! j))"
    by (auto simp: parseFails_def)
  have links: "scrapeLinks W [] (setLinksOf W) = Inl p"
    using scrapeLinks_stops(2)[OF i(1,3,2)] .
  show ?thesis
  proof (cases "NewDocument W indexURL")
    case (Inl e)
    with i(1) show ?thesis by (simp add: setLinksOf_def)
  next
    case (Inr doc)
    with links show ?thesis by (simp add: scrapePrices_def setLinksOf_def)
  qed
qed

lemma run_all_scraped:
  assumes "allScraped W m" "RemoveAllPricesErr W = None" "InsertPricesErr W = None"
  shows "scrapePrices W db = (db\<lparr>Prices := map snd m\<rparr>, Inr None)"
proof -
  from assms(1) obtain doc pages where doc: "NewDocument W indexURL = Inr doc"
    and pages: "map (scrapePage W) (setLinksOf W) = map (\<lambda>entries. Inr (Inr entries)) pages"
    and m: "m = reconcile [] (concat pages)"
    by (auto simp: allScraped_def)
  have "scrapeLinks W [] (setLinksOf W) = Inr (Inr m)"
    using scrapeLinks_all[OF pages, of "[]"] m by simp
  with doc assms(2,3) show ?thesis
    by (simp add: scrapePrices_def setLinksOf_def UpdateAllPrices_def)
qed


subsection \<open>The claims\<close>




text \<open>
  C4, as stated: when a fetch or a parse of a page fails, the scraper stats are replaced
  with the current time and the failure, and the error does not pass the scheduler. On a
  price text that is no number \<open>scrapePage\<close> calls \<open>panic\<close>: the run on \<open>badPage\<close> at time 2
  ends in that panic, which \<open>scrapePricesPeriodic\<close> does not recover, and the stats are
  still those of time 1.
\<close>

theorem scrapePricesPeriodic_parse_panic:
  "scrapePricesPeriodic (world (Inr badPage)) 2 oldDb =
     (oldDb, Some (Panic (Error (str ''invalid syntax'')))) \<and>
   Stats oldDb = [\<lparr>LastPriceUpdate = 1, LastPriceUpdateError = None\<rparr>]"
  using run_bad by (simp add: oldDb_def)

text \<open>
  C4, amended. Of a scrape run that \<open>scrapePricesPeriodic\<close> starts at a database \<open>db\<close>:
  \<^item> If every page is fetched and parsed and the price store takes the replacement, the
    catalog becomes the reconciled entries, with nothing of its old contents, and
    \<open>SetScraperStats\<close> is called with the current time and no error.
  \<^item> If the fetch of the index page or of a listing page fails, the catalog is left as it
    was, \<open>SetScraperStats\<close> is called with the current time and that error, and the call
    returns normally.
  \<^item> If a price text of a listing page does not parse, the run panics with the error of
    \<open>ParseFloat\<close>: the catalog and the scraper stats are left as they were, and the panic
    leaves \<open>scrapePricesPeriodic\<close>.
  \<^item> \<open>SetScraperStats\<close> replaces the scraper stats by the one record it is given when
    the stats store takes the write, and never touches the catalog.
\<close>

theorem scrapePricesPeriodic_outcomes:
  "(allScraped W m \<and> RemoveAllPricesErr W = None \<and> InsertPricesErr W = None \<longrightarrow>
      scrapePricesPeriodic W now db =
        (fst (SetScraperStats W (db\<lparr>Prices := map snd m\<rparr>)
                \<lparr>LastPriceUpdate = now, LastPriceUpdateError = None\<rparr>), None)) \<and>
   (fetchFails W err \<longrightarrow>
      scrapePricesPeriodic W now db =
        (fst (SetScraperStats W db \<lparr>LastPriceUpdate = now, LastPriceUpdateError = Some err\<rparr>),
         None)) \<and>
   (parseFails W p \<longrightarrow>
      scrapePricesPeriodic W now db = (db, Some p) \<and>
      (\<exists>text e. p = Panic e \<and> ParseFloat W text = Inl e)) \<and>
   (RemoveAllStatsErr W = None \<and> InsertStatsErr W = None \<longrightarrow>
      fst (SetScraperStats W db s) = db\<lparr>Stats := [s]\<rparr>) \<and>
   Prices (fst (SetScraperStats W db s)) = Prices db"
proof -
  have ok: "allScraped W m \<and> RemoveAllPricesErr W = None \<and> InsertPricesErr W = None \<longrightarrow>
      scrapePricesPeriodic W now db =
        (fst (SetScraperStats W (db\<lparr>Prices := map snd m\<rparr>)
                \<lparr>LastPriceUpdate = now, LastPriceUpdateError = None\<rparr>), None)"
    using run_all_scraped[of W m db] by (auto simp: scrapePricesPeriodic_def)
  have fetch: "fetchFails W err \<longrightarrow>
      scrapePricesPeriodic W now db =
        (fst (SetScraperStats W db \<lparr>LastPriceUpdate = now, LastPriceUpdateError = Some err\<rparr>),
         None)"
    using run_fetch_fails[of W err db] by (auto simp: scrapePricesPeriodic_def)
  have parse: "parseFails W p \<longrightarrow>
      scrapePricesPeriodic W now db = (db, Some p) \<and>
      (\<exists>text e. p = Panic e \<and> ParseFloat W text = Inl e)"
  proof
    assume pf: "parseFails W p"
    then obtain i where "scrapePage W (setLinksOf W ! i) = Inl p"
      by (auto simp: parseFails_def)
    from scrapePage_panic[OF this] run_parse_fails[OF pf, of db]
    show "scrapePricesPeriodic W now db = (db, Some p) \<and>
      (\<exists>text e. p = Panic e \<and> ParseFloat W text = Inl e)"
      by (simp add: scrapePricesPeriodic_def)
  qed
  have stats: "RemoveAllStatsErr W = None \<and> InsertStatsErr W = None \<longrightarrow>
      fst (SetScraperStats W db s) = db\<lparr>Stats := [s]\<rparr>"
    by (simp add: SetScraperStats_def)
  have prices: "Prices (fst (SetScraperStats W db s)) = Prices db"
    by (simp add: SetScraperStats_def split: option.splits)
  from ok fetch parse stats prices show ?thesis by (intro conjI)
qed
text \<open>
  The run on \<open>goodPage\<close> at time 2 replaces the old catalog by the two reconciled entries
  and the stats by time 2 without error; the run on a listing page that cannot be fetched
  leaves the catalog and records time 2 with the error.
\<close>

theorem scrapePricesPeriodic_outcomes_witness:
  "scrapePricesPeriodic (world (Inr goodPage)) 2 oldDb =
     (\<lparr>Prices = [\<lparr>ID = str ''shock'', EntryName = str ''SHOCK'', Price = Finite 3\<rparr>,
                  \<lparr>ID = str ''lightningbolt'', EntryName = str ''Lightning Bolt'',
                    Price = Finite 7\<rparr>],
       Stats = [\<lparr>LastPriceUpdate = 2, LastPriceUpdateError = None\<rparr>]\<rparr>, None) \<and>
   scrapePricesPeriodic (world (Inl (Error (str ''timeout'')))) 2 oldDb =
     (\<lparr>Prices = Prices oldDb,
       Stats = [\<lparr>LastPriceUpdate = 2, LastPriceUpdateError = Some (Error (str ''timeout''))\<rparr>]\<rparr>,
      None)"
proof -
  let ?good = "world (Inr goodPage)"
  let ?down = "world (Inl (Error (str ''timeout'')))"
  let ?m = "[(str ''shock'', \<lparr>ID = str ''shock'', EntryName = str ''SHOCK'', Price = Finite 3\<rparr>),
             (str ''lightningbolt'',
              \<lparr>ID = str ''lightningbolt'', EntryName = str ''Lightning Bolt'',
                    Price = Finite 7\<rparr>)]"
  have differ: "str ''shock'' \<noteq> str ''lightningbolt''"
    by (simp add: str_def)
  have stores: "RemoveAllPricesErr (world page) = None" "InsertPricesErr (world page) = None"
    "RemoveAllStatsErr (world page) = None" "InsertStatsErr (world page) = None" for page
    by (simp_all add: world_def)
  have index: "NewDocument (world page) indexURL = Inr indexDoc" for page
    by (simp add: world_def)
  have "map (scrapePage ?good) (setLinksOf ?good) =
          map (\<lambda>entries. Inr (Inr entries))
            [[\<lparr>ID = str ''shock'', EntryName = str ''Shock'', Price = Finite 5\<rparr>,
              \<lparr>ID = str ''shock'', EntryName = str ''SHOCK'', Price = Finite 3\<rparr>,
              \<lparr>ID = str ''lightningbolt'', EntryName = str ''Lightning Bolt'',
                    Price = Finite 7\<rparr>]]"
    by (simp add: links_ex page_good)
  moreover have "?m = reconcile [] (concat
            [[\<lparr>ID = str ''shock'', EntryName = str ''Shock'', Price = Finite 5\<rparr>,
              \<lparr>ID = str ''shock'', EntryName = str ''SHOCK'', Price = Finite 3\<rparr>,
              \<lparr>ID = str ''lightningbolt'', EntryName = str ''Lightning Bolt'',
                    Price = Finite 7\<rparr>]])"
    using differ by simp
  ultimately have scraped: "allScraped ?good ?m"
    unfolding allScraped_def using index by blast
  have good: "scrapePricesPeriodic ?good 2 oldDb =
     (\<lparr>Prices = [\<lparr>ID = str ''shock'', EntryName = str ''SHOCK'', Price = Finite 3\<rparr>,
                  \<lparr>ID = str ''lightningbolt'', EntryName = str ''Lightning Bolt'',
                    Price = Finite 7\<rparr>],
       Stats = [\<lparr>LastPriceUpdate = 2, LastPriceUpdateError = None\<rparr>]\<rparr>, None)"
    using scrapePricesPeriodic_outcomes[of ?good ?m 2 oldDb, THEN conjunct1] scraped
    by (simp add: stores SetScraperStats_def oldDb_def)
  have "NewDocument ?down (spacesToPlus (setLinksOf ?down ! 0)) = Inl (Error (str ''timeout''))"
    by (simp add: links_ex) (simp add: spacesToPlus_def world_defs)
  then have fails: "fetchFails ?down (Error (str ''timeout''))"
    by (simp add: fetchFails_def links_ex)
  have down: "scrapePricesPeriodic ?down 2 oldDb =
     (\<lparr>Prices = Prices oldDb,
       Stats = [\<lparr>LastPriceUpdate = 2, LastPriceUpdateError = Some (Error (str ''timeout''))\<rparr>]\<rparr>,
      None)"
    using scrapePricesPeriodic_outcomes[of ?down _ 2 oldDb "Error (str ''timeout'')",
            THEN conjunct2, THEN conjunct1] fails
    by (simp add: stores SetScraperStats_def oldDb_def)
  from good down show ?thesis by (intro conjI)
qed

section \<open>Theorems on \<open>Clone\<close>\<close>

lemma preserves_slice:
  assumes "preserves h h'" "allocatedSlice h sl"
  shows "sliceOf h' sl = sliceOf h sl"
  using assms by (cases sl) (auto simp: preserves_def allocatedSlice_def sliceOf_def)

lemma preserves_deref:
  assumes "preserves h h'" "a < length (Cards h)"
  shows "deref h' (Some a) = Inr (Cards h ! a)"
  using assms by (simp add: preserves_def deref_def)

lemma deref_allocated: "a < length (Cards h) \<Longrightarrow> deref h (Some a) = Inr (Cards h ! a)"
  by (simp add: deref_def)

lemma loadCards_allocated:
  assumes "preserves h h'"
    and "list_all (\<lambda>p. case p of None \<Rightarrow> False | Some a \<Rightarrow> a < length (Cards h)) ps"
  shows "loadCards h' ps = Some (map (\<lambda>p. Cards h ! the p) ps)"
  using assms(2)
proof (induction ps)
  case Nil
  then show ?case by simp
next
  case (Cons p ps)
  then obtain a where "p = Some a" "a < length (Cards h)" by (cases p) auto
  with Cons assms(1) show ?case by (simp add: preserves_deref)
qed

lemma addPricesRef_allocated:
  assumes "preserves h h'"
    and "list_all (\<lambda>p. case p of None \<Rightarrow> False | Some a \<Rightarrow> a < length (Cards h)) ps"
  shows "addPricesRef F h' ret ps = Inr (addPrices F ret (map (\<lambda>p. Cards h ! the p) ps))"
  using assms(2)
proof (induction ps arbitrary: ret)
  case Nil
  then show ?case by simp
next
  case (Cons p ps)
  then obtain a where "p = Some a" "a < length (Cards h)" by (cases p) auto
  with Cons assms(1) show ?case by (simp add: preserves_deref)
qed

lemma preserves_refl: "preserves h h"
  by (simp add: preserves_def)

lemma loadSnapshot_preserved:
  assumes "preserves h h'" "wellFormed h s"
  shows "loadSnapshot h' s =
           Some \<lparr>Date = RefDate s, Decklist = copiesOf h (RefDecklist s),
                 Sideboard = copiesOf h (RefSideboard s), Commander = RefCommander s,
                 IsGrandfatherLegal = RefIsGrandfatherLegal s\<rparr>"
proof -
  from assms(2) have d: "allocatedSlice h (RefDecklist s)" and sb: "allocatedSlice h (RefSideboard s)"
    by (simp_all add: wellFormed_def)
  have "loadCards h' (sliceOf h' (RefDecklist s)) = Some (copiesOf h (RefDecklist s))"
    using loadCards_allocated[OF assms(1), of "sliceOf h (RefDecklist s)"] d
    by (simp add: preserves_slice[OF assms(1) d] allocatedSlice_def copiesOf_def)
  moreover have "loadCards h' (sliceOf h' (RefSideboard s)) = Some (copiesOf h (RefSideboard s))"
    using loadCards_allocated[OF assms(1), of "sliceOf h (RefSideboard s)"] sb
    by (simp add: preserves_slice[OF assms(1) sb] allocatedSlice_def copiesOf_def)
  ultimately show ?thesis by (simp add: loadSnapshot_def)
qed

lemma TotalPriceRef_preserved:
  assumes "preserves h h'" "wellFormed h s" "loadSnapshot h s = Some v"
  shows "TotalPriceRef F h' s = Inr (TotalPrice F v)"
proof -
  from assms(2) have d: "allocatedSlice h (RefDecklist s)" and sb: "allocatedSlice h (RefSideboard s)"
    by (simp_all add: wellFormed_def)
  have v: "v = \<lparr>Date = RefDate s, Decklist = copiesOf h (RefDecklist s),
                 Sideboard = copiesOf h (RefSideboard s), Commander = RefCommander s,
                 IsGrandfatherLegal = RefIsGrandfatherLegal s\<rparr>"
    using loadSnapshot_preserved[OF preserves_refl assms(2)] assms(3) by simp
  have a1: "addPricesRef F h' ret (sliceOf h' (RefDecklist s)) =
              Inr (addPrices F ret (copiesOf h (RefDecklist s)))" for ret
    using addPricesRef_allocated[OF assms(1), of "sliceOf h (RefDecklist s)"] d
    by (simp add: preserves_slice[OF assms(1) d] allocatedSlice_def copiesOf_def)
  have a2: "addPricesRef F h' ret (sliceOf h' (RefSideboard s)) =
              Inr (addPrices F ret (copiesOf h (RefSideboard s)))" for ret
    using addPricesRef_allocated[OF assms(1), of "sliceOf h (RefSideboard s)"] sb
    by (simp add: preserves_slice[OF assms(1) sb] allocatedSlice_def copiesOf_def)
  show ?thesis
    by (simp add: TotalPriceRef_def a1 a2 v TotalPrice_def Let_def)
qed

lemma freshPtrs_Suc: "freshPtrs c (Suc i) = freshPtrs c i @ [Some (c + i)]"
  by (simp add: freshPtrs_def)

lemma cloneState_slice:
  assumes "allocatedSlice h src"
  shows "sliceOf (cloneState h src i) src = sliceOf h src"
  using assms by (cases src) (auto simp: allocatedSlice_def sliceOf_def cloneState_def nth_append)

lemma cloneState_step:
  assumes alloc: "allocatedSlice h src" and i: "i < length (sliceOf h src)"
  shows "\<exists>copy. deref (cloneState h src i) (sliceOf h src ! i) = Inr copy \<and>
     (cloneState h src i)\<lparr>Cards := Cards (cloneState h src i) @ [copy],
        Arrays := (Arrays (cloneState h src i))
           [length (Arrays h) := (Arrays (cloneState h src i) ! length (Arrays h))
               [i := Some (length (Cards (cloneState h src i)))]]\<rparr>
       = cloneState h src (Suc i)"
proof -
  let ?ps = "sliceOf h src"
  let ?n = "length ?ps"
  from alloc i obtain a where a: "?ps ! i = Some a" "a < length (Cards h)"
    by (cases "?ps ! i") (auto simp: allocatedSlice_def list_all_length)
  have len: "length (copiesOf h src) = ?n" by (simp add: copiesOf_def)
  have nth: "copiesOf h src ! i = Cards h ! a" using i a by (simp add: copiesOf_def)
  have d: "deref (cloneState h src i) (?ps ! i) = Inr (Cards h ! a)"
    using a by (simp add: deref_def cloneState_def nth_append)
  have cards: "Cards h @ take i (copiesOf h src) @ [Cards h ! a]
                 = Cards h @ take (Suc i) (copiesOf h src)"
    using i len nth by (simp add: take_Suc_conv_app_nth)
  have lc: "length (Cards (cloneState h src i)) = length (Cards h) + i"
    using i len by (simp add: cloneState_def)
  have rep: "replicate (?n - i) None = None # replicate (?n - Suc i) (None :: ptr)"
    using i by (cases "?n - i") (auto simp: Suc_diff_Suc)
  have lf: "length (freshPtrs (length (Cards h)) i) = i" by (simp add: freshPtrs_def)
  have arr: "(freshPtrs (length (Cards h)) i @ replicate (?n - i) None)
                [i := Some (length (Cards h) + i)]
             = freshPtrs (length (Cards h)) (Suc i) @ replicate (?n - Suc i) None"
    by (simp add: rep list_update_append lf freshPtrs_Suc)
  have "(cloneState h src i)\<lparr>Cards := Cards (cloneState h src i) @ [Cards h ! a],
        Arrays := (Arrays (cloneState h src i))
           [length (Arrays h) := (Arrays (cloneState h src i) ! length (Arrays h))
               [i := Some (length (Cards (cloneState h src i)))]]\<rparr>
       = cloneState h src (Suc i)"
    unfolding lc using cards arr by (simp add: cloneState_def)
  with d show ?thesis by blast
qed

lemma cloneLoop_state:
  assumes alloc: "allocatedSlice h src"
  shows "i \<le> length (sliceOf h src) \<Longrightarrow>
     cloneLoop (cloneState h src i) src (length (Arrays h)) i
       = Inr (cloneState h src (length (sliceOf h src)))"
proof (induction "length (sliceOf h src) - i" arbitrary: i)
  case 0
  then have "i = length (sliceOf h src)" by simp
  then show ?case
    by (subst cloneLoop.simps) (simp add: cloneState_slice[OF alloc] del: cloneLoop.simps)
next
  case (Suc k)
  then have i: "i < length (sliceOf h src)" by simp
  from cloneState_step[OF alloc i] obtain copy where
    d: "deref (cloneState h src i) (sliceOf h src ! i) = Inr copy"
    and nxt: "(cloneState h src i)\<lparr>Cards := Cards (cloneState h src i) @ [copy],
        Arrays := (Arrays (cloneState h src i))
           [length (Arrays h) := (Arrays (cloneState h src i) ! length (Arrays h))
               [i := Some (length (Cards (cloneState h src i)))]]\<rparr>
       = cloneState h src (Suc i)"
    by blast
  have ih: "cloneLoop (cloneState h src (Suc i)) src (length (Arrays h)) (Suc i)
       = Inr (cloneState h src (length (sliceOf h src)))"
    using Suc i by (intro Suc.hyps(1)) simp_all
  show ?case
    by (subst cloneLoop.simps) (simp add: cloneState_slice[OF alloc] i d nxt ih del: cloneLoop.simps)
qed

lemma makeSlice_state:
  "makeSlice h (length (sliceOf h src)) = (cloneState h src 0, length (Arrays h))"
  by (simp add: makeSlice_def cloneState_def freshPtrs_def)

lemma cloneState_done:
  "cloneState h src (length (sliceOf h src)) =
     h\<lparr>Cards := Cards h @ copiesOf h src,
       Arrays := Arrays h @ [freshPtrs (length (Cards h)) (length (sliceOf h src))]\<rparr>"
  by (simp add: cloneState_def copiesOf_def)

lemma clone_slice:
  assumes "allocatedSlice h src"
  shows "(case makeSlice h (length (sliceOf h src)) of
            (h1, dst) \<Rightarrow> cloneLoop h1 src dst 0)
         = Inr (h\<lparr>Cards := Cards h @ copiesOf h src,
                 Arrays := Arrays h @ [freshPtrs (length (Cards h)) (length (sliceOf h src))]\<rparr>)"
  using cloneLoop_state[OF assms, of 0]
  by (simp add: makeSlice_state cloneState_done del: cloneLoop.simps)

lemma preserves_grow: "preserves h (h\<lparr>Cards := Cards h @ cs, Arrays := Arrays h @ as\<rparr>)"
  by (simp add: preserves_def nth_append)

lemma preserves_allocated:
  assumes "preserves h h'" "allocatedSlice h sl"
  shows "allocatedSlice h' sl"
proof -
  have same: "sliceOf h' sl = sliceOf h sl" by (rule preserves_slice[OF assms])
  have "list_all (\<lambda>p. case p of None \<Rightarrow> False | Some a \<Rightarrow> a < length (Cards h')) (sliceOf h sl)"
    using assms by (auto simp: allocatedSlice_def preserves_def list_all_iff split: option.splits)
  moreover have "case sl of None \<Rightarrow> True | Some a \<Rightarrow> a < length (Arrays h')"
    using assms by (auto simp: allocatedSlice_def preserves_def split: option.splits)
  ultimately show ?thesis by (simp add: allocatedSlice_def same)
qed

lemma preserves_copies:
  assumes "preserves h h'" "allocatedSlice h sl"
  shows "copiesOf h' sl = copiesOf h sl"
proof -
  have "\<forall>p\<in>set (sliceOf h sl). Cards h' ! the p = Cards h ! the p"
    using assms by (auto simp: allocatedSlice_def preserves_def list_all_iff split: option.splits)
  then show ?thesis by (simp add: copiesOf_def preserves_slice[OF assms])
qed

text \<open>The memory and the snapshot that \<open>Clone\<close> returns.\<close>

lemma Clone_result:
  assumes "wellFormed h s"
  shows "Clone h s =
     Inr (h\<lparr>Cards := Cards h @ copiesOf h (RefDecklist s) @ copiesOf h (RefSideboard s),
            Arrays := Arrays h @
              [freshPtrs (length (Cards h)) (length (sliceOf h (RefDecklist s))),
               freshPtrs (length (Cards h) + length (sliceOf h (RefDecklist s)))
                 (length (sliceOf h (RefSideboard s)))]\<rparr>,
          \<lparr>RefDate = RefDate s, RefDecklist = Some (length (Arrays h)),
           RefSideboard = Some (Suc (length (Arrays h))), RefCommander = RefCommander s,
           RefIsGrandfatherLegal = RefIsGrandfatherLegal s\<rparr>)"
proof -
  let ?h2 = "h\<lparr>Cards := Cards h @ copiesOf h (RefDecklist s),
       Arrays := Arrays h @ [freshPtrs (length (Cards h)) (length (sliceOf h (RefDecklist s)))]\<rparr>"
  from assms have d: "allocatedSlice h (RefDecklist s)" and sb: "allocatedSlice h (RefSideboard s)"
    by (simp_all add: wellFormed_def)
  have p: "preserves h ?h2" by (rule preserves_grow)
  have sb2: "allocatedSlice ?h2 (RefSideboard s)" by (rule preserves_allocated[OF p sb])
  have first: "(case makeSlice h (length (sliceOf h (RefDecklist s))) of
                  (h1, dst) \<Rightarrow> cloneLoop h1 (RefDecklist s) dst 0) = Inr ?h2"
    by (rule clone_slice[OF d])
  have second: "(case makeSlice ?h2 (length (sliceOf ?h2 (RefSideboard s))) of
                  (h1, dst) \<Rightarrow> cloneLoop h1 (RefSideboard s) dst 0)
      = Inr (?h2\<lparr>Cards := Cards ?h2 @ copiesOf ?h2 (RefSideboard s),
               Arrays := Arrays ?h2 @
                 [freshPtrs (length (Cards ?h2)) (length (sliceOf ?h2 (RefSideboard s)))]\<rparr>)"
    by (rule clone_slice[OF sb2])
  have len: "length (copiesOf h (RefDecklist s)) = length (sliceOf h (RefDecklist s))"
    by (simp add: copiesOf_def)
  have dst1: "snd (makeSlice h (length (sliceOf h (RefDecklist s)))) = length (Arrays h)"
    by (simp add: makeSlice_def)
  have dst2: "snd (makeSlice ?h2 (length (sliceOf ?h2 (RefSideboard s)))) = Suc (length (Arrays h))"
    by (simp add: makeSlice_def)
  show ?thesis
    unfolding Clone_def
    using first second dst1 dst2
    by (simp add: split_beta preserves_copies[OF p sb] preserves_slice[OF p sb] len
             del: cloneLoop.simps)
qed

lemma loadCards_fresh:
  "c + length cs \<le> length (Cards h) \<Longrightarrow> take (length cs) (drop c (Cards h)) = cs \<Longrightarrow>
     loadCards h (freshPtrs c (length cs)) = Some cs"
proof (induction cs arbitrary: c)
  case Nil
  then show ?case by (simp add: freshPtrs_def)
next
  case (Cons x cs)
  have ptrs: "freshPtrs c (Suc (length cs)) = Some c # freshPtrs (Suc c) (length cs)"
  proof -
    have "[c..<c + Suc (length cs)] = c # [Suc c..<Suc c + length cs]"
      by (subst upt_rec) simp
    then show ?thesis by (simp add: freshPtrs_def)
  qed
  from Cons.prems have c: "c < length (Cards h)" by simp
  have "drop c (Cards h) = Cards h ! c # drop (Suc c) (Cards h)"
    using c by (simp add: Cons_nth_drop_Suc)
  with Cons.prems(2) have x: "Cards h ! c = x"
    and rest: "take (length cs) (drop (Suc c) (Cards h)) = cs"
    by simp_all
  have "loadCards h (freshPtrs (Suc c) (length cs)) = Some cs"
    using Cons.prems(1) rest by (intro Cons.IH) simp_all
  with c x show ?case by (simp add: ptrs deref_def)
qed

lemma fresh_above: "Some a \<in> set (freshPtrs c n) \<Longrightarrow> c \<le> a"
  by (auto simp: freshPtrs_def)

lemma Clone_contents:
  assumes wf: "wellFormed h s" and cl: "Clone h s = Inr (h', s')"
  shows "preserves h h'" and "loadSnapshot h' s' = loadSnapshot h s"
    and "changedOnlyIn h' s' h'' \<Longrightarrow> preserves h h''"
proof -
  let ?d = "copiesOf h (RefDecklist s)"
  let ?sb = "copiesOf h (RefSideboard s)"
  let ?c = "length (Cards h)"
  have ld: "length (sliceOf h (RefDecklist s)) = length ?d"
    and lsb: "length (sliceOf h (RefSideboard s)) = length ?sb"
    by (simp_all add: copiesOf_def)
  from Clone_result[OF wf] cl
  have h': "h' = h\<lparr>Cards := Cards h @ ?d @ ?sb,
            Arrays := Arrays h @ [freshPtrs ?c (length ?d), freshPtrs (?c + length ?d) (length ?sb)]\<rparr>"
    and s': "s' = \<lparr>RefDate = RefDate s, RefDecklist = Some (length (Arrays h)),
           RefSideboard = Some (Suc (length (Arrays h))), RefCommander = RefCommander s,
           RefIsGrandfatherLegal = RefIsGrandfatherLegal s\<rparr>"
    by (simp_all add: ld lsb)
  show p: "preserves h h'"
    unfolding h' by (rule preserves_grow)
  have sl1: "sliceOf h' (RefDecklist s') = freshPtrs ?c (length ?d)"
    and sl2: "sliceOf h' (RefSideboard s') = freshPtrs (?c + length ?d) (length ?sb)"
    by (simp_all add: h' s' sliceOf_def nth_append)
  have l1: "loadCards h' (freshPtrs ?c (length ?d)) = Some ?d"
    by (rule loadCards_fresh) (simp_all add: h')
  have l2: "loadCards h' (freshPtrs (?c + length ?d) (length ?sb)) = Some ?sb"
    by (rule loadCards_fresh) (simp_all add: h')
  show "loadSnapshot h' s' = loadSnapshot h s"
    unfolding loadSnapshot_preserved[OF preserves_refl wf]
    by (simp add: loadSnapshot_def sl1 sl2 l1 l2) (simp add: s')
  assume ch: "changedOnlyIn h' s' h''"
  have lens: "length (Cards h) \<le> length (Cards h'')" "length (Arrays h) \<le> length (Arrays h'')"
    using ch by (simp_all add: changedOnlyIn_def h')
  have cards: "Cards h'' ! a = Cards h ! a" if a: "a < length (Cards h)" for a
  proof -
    have "\<not> ownsCard h' s' a"
      using a fresh_above[of a ?c "length ?d"] fresh_above[of a "?c + length ?d" "length ?sb"]
      by (auto simp: ownsCard_def sl1 sl2)
    moreover have "a < length (Cards h')" using a by (simp add: h')
    ultimately have "Cards h'' ! a = Cards h' ! a"
      using ch by (simp add: changedOnlyIn_def)
    with a show ?thesis by (simp add: h' nth_append)
  qed
  have arrays: "Arrays h'' ! a = Arrays h ! a" if a: "a < length (Arrays h)" for a
  proof -
    have "\<not> ownsArray s' a" using a by (simp add: ownsArray_def s')
    moreover have "a < length (Arrays h')" using a by (simp add: h')
    ultimately have "Arrays h'' ! a = Arrays h' ! a"
      using ch by (simp add: changedOnlyIn_def)
    with a show ?thesis by (simp add: h' nth_append)
  qed
  show "preserves h h''"
    using lens cards arrays by (simp add: preserves_def)
qed

text \<open>
  C9. For every snapshot in memory, \<open>Clone\<close> returns a snapshot with the same contents, and
  whatever is then written to the clone's backing arrays and to the card entries they
  point to, and whatever is newly allocated, the contents of the original snapshot and
  its total price are what they were.
\<close>

theorem Clone_shares_nothing:
  assumes "wellFormed h s"
  shows "\<exists>h' s' v. Clone h s = Inr (h', s') \<and>
           loadSnapshot h s = Some v \<and> loadSnapshot h' s' = Some v \<and>
           TotalPriceRef F h s = Inr (TotalPrice F v) \<and>
           (\<forall>h''. changedOnlyIn h' s' h'' \<longrightarrow>
                   loadSnapshot h'' s = Some v \<and> TotalPriceRef F h'' s = Inr (TotalPrice F v))"
proof -
  from Clone_result[OF assms] obtain h' s' where cl: "Clone h s = Inr (h', s')" by blast
  from loadSnapshot_preserved[OF preserves_refl assms]
  obtain v where v: "loadSnapshot h s = Some v" by blast
  have same: "loadSnapshot h' s' = Some v"
    using Clone_contents(2)[OF assms cl] v by simp
  have total: "TotalPriceRef F h s = Inr (TotalPrice F v)"
    by (rule TotalPriceRef_preserved[OF preserves_refl assms v])
  have frame: "\<forall>h''. changedOnlyIn h' s' h'' \<longrightarrow>
                   loadSnapshot h'' s = Some v \<and> TotalPriceRef F h'' s = Inr (TotalPrice F v)"
  proof (intro allI impI)
    fix h'' assume "changedOnlyIn h' s' h''"
    then have p: "preserves h h''" by (rule Clone_contents(3)[OF assms cl])
    have "loadSnapshot h'' s = Some v"
      using loadSnapshot_preserved[OF p assms] loadSnapshot_preserved[OF preserves_refl assms] v
      by simp
    moreover have "TotalPriceRef F h'' s = Inr (TotalPrice F v)"
      by (rule TotalPriceRef_preserved[OF p assms v])
    ultimately show "loadSnapshot h'' s = Some v \<and> TotalPriceRef F h'' s = Inr (TotalPrice F v)" ..
  qed
  from cl v same total frame show ?thesis by blast
qed

text \<open>
  In the example the original costs 12 before and after the writes to the clone, while
  the clone, which cost 12, costs 900 after them.
\<close>

theorem Clone_shares_nothing_witness:
  "wellFormed heapEx snapRefEx \<and>
   Clone heapEx snapRefEx = Inr (clonedHeap, cloneRef) \<and>
   changedOnlyIn clonedHeap cloneRef mutatedHeap \<and>
   TotalPriceRef exactOps clonedHeap cloneRef = Inr (Finite 12) \<and>
   TotalPriceRef exactOps mutatedHeap cloneRef = Inr (Finite 900) \<and>
   TotalPriceRef exactOps mutatedHeap snapRefEx = Inr (Finite 12)"
proof -
  note ex_defs = heapEx_def snapRefEx_def clonedHeap_def cloneRef_def mutatedHeap_def
  have wf: "wellFormed heapEx snapRefEx"
    by (simp add: wellFormed_def allocatedSlice_def sliceOf_def ex_defs)
  have cl: "Clone heapEx snapRefEx = Inr (clonedHeap, cloneRef)"
    unfolding Clone_result[OF wf]
    by (simp add: copiesOf_def sliceOf_def freshPtrs_def ex_defs)
  have ch: "changedOnlyIn clonedHeap cloneRef mutatedHeap"
    by (simp add: changedOnlyIn_def ownsCard_def ownsArray_def sliceOf_def ex_defs
                  less_Suc_eq numeral_2_eq_2 numeral_3_eq_3 eval_nat_numeral)
  have before: "TotalPriceRef exactOps clonedHeap cloneRef = Inr (Finite 12)"
    by (simp add: TotalPriceRef_def sliceOf_def deref_def CardEntry_TotalPrice_def Free_def exactOps_def zero_float64_def
                  noCommander_def shocks_def islands_def ex_defs)
  have after: "TotalPriceRef exactOps mutatedHeap cloneRef = Inr (Finite 900)"
    by (simp add: TotalPriceRef_def sliceOf_def deref_def CardEntry_TotalPrice_def Free_def exactOps_def zero_float64_def
                  noCommander_def shocks_def islands_def ex_defs)
  have v: "loadSnapshot heapEx snapRefEx =
             Some \<lparr>Date = 1, Decklist = [shocks], Sideboard = [islands],
                   Commander = noCommander, IsGrandfatherLegal = False\<rparr>"
    by (simp add: loadSnapshot_def sliceOf_def deref_def ex_defs)
  from Clone_shares_nothing[OF wf, of exactOps] cl v ch
  have "TotalPriceRef exactOps mutatedHeap snapRefEx =
          Inr (TotalPrice exactOps \<lparr>Date = 1, Decklist = [shocks], Sideboard = [islands],
                           Commander = noCommander, IsGrandfatherLegal = False\<rparr>)"
    by auto
  then have original: "TotalPriceRef exactOps mutatedHeap snapRefEx = Inr (Finite 12)"
    by (simp add: TotalPrice_def CardEntry_TotalPrice_def Free_def exactOps_def zero_float64_def noCommander_def shocks_def
                  islands_def)
  from wf cl ch before after original show ?thesis by (intro conjI)
qed

end
